theory Spec2Isabelle
  imports Complex_Main
begin

section \<open>Numeric values\<close>

text \<open>
  The similarity-scoring engine of \<^verbatim>\<open>src/utils.py\<close> computes on NumPy arrays of
  \<^verbatim>\<open>float64\<close>. A value is modelled as a real number, one of the two
  infinities, or NaN. Finite arithmetic is exact: rounding is outside the model, so a
  result the source reaches "within floating tolerance" is reached exactly here. The
  non-finite values follow IEEE 754; a zero denominator is taken as \<open>+0\<close>, which is
  what every denominator of the source is (a standard deviation, a product of norms, a
  square root, a sum of weights or a row count).
\<close>

datatype fval = Fin real | PInf | NInf | NaN

datatype error =
  AssertionError | ZeroDivisionError | ValueError | IndexError | KeyError

text \<open>A raised exception ends the computation: the next step runs on a result only.\<close>

definition and_then :: "error + 'a \<Rightarrow> ('a \<Rightarrow> error + 'b) \<Rightarrow> error + 'b" where
  "and_then r f = (case r of Inl e \<Rightarrow> Inl e | Inr v \<Rightarrow> f v)"

fun is_fin :: "fval \<Rightarrow> bool" where
  "is_fin (Fin a) = True"
| "is_fin v = False"

fun fneg :: "fval \<Rightarrow> fval" where
  "fneg (Fin a) = Fin (- a)"
| "fneg PInf = NInf"
| "fneg NInf = PInf"
| "fneg NaN = NaN"

fun fadd :: "fval \<Rightarrow> fval \<Rightarrow> fval" where
  "fadd (Fin a) (Fin b) = Fin (a + b)"
| "fadd NaN v = NaN"
| "fadd v NaN = NaN"
| "fadd PInf NInf = NaN"
| "fadd NInf PInf = NaN"
| "fadd PInf v = PInf"
| "fadd v PInf = PInf"
| "fadd NInf v = NInf"
| "fadd v NInf = NInf"

definition fsub :: "fval \<Rightarrow> fval \<Rightarrow> fval" where
  "fsub a b = fadd a (fneg b)"

definition inf_times :: "bool \<Rightarrow> real \<Rightarrow> fval" where
  "inf_times pos b =
     (if b = 0 then NaN else if (0 < b) = pos then PInf else NInf)"

fun fmul :: "fval \<Rightarrow> fval \<Rightarrow> fval" where
  "fmul (Fin a) (Fin b) = Fin (a * b)"
| "fmul NaN v = NaN"
| "fmul v NaN = NaN"
| "fmul PInf (Fin b) = inf_times True b"
| "fmul (Fin a) PInf = inf_times True a"
| "fmul NInf (Fin b) = inf_times False b"
| "fmul (Fin a) NInf = inf_times False a"
| "fmul PInf PInf = PInf"
| "fmul PInf NInf = NInf"
| "fmul NInf PInf = NInf"
| "fmul NInf NInf = PInf"

fun fdiv :: "fval \<Rightarrow> fval \<Rightarrow> fval" where
  "fdiv (Fin a) (Fin b) =
     (if b = 0 then (if a = 0 then NaN else if 0 < a then PInf else NInf)
      else Fin (a / b))"
| "fdiv NaN v = NaN"
| "fdiv v NaN = NaN"
| "fdiv (Fin a) PInf = Fin 0"
| "fdiv (Fin a) NInf = Fin 0"
| "fdiv PInf (Fin b) = (if 0 \<le> b then PInf else NInf)"
| "fdiv NInf (Fin b) = (if 0 \<le> b then NInf else PInf)"
| "fdiv PInf v = NaN"
| "fdiv NInf v = NaN"

fun fsqrt :: "fval \<Rightarrow> fval" where
  "fsqrt (Fin a) = (if a < 0 then NaN else Fin (sqrt a))"
| "fsqrt PInf = PInf"
| "fsqrt NInf = NaN"
| "fsqrt NaN = NaN"

text \<open>\<^verbatim>\<open>np.sum\<close>, \<^verbatim>\<open>np.mean\<close>, \<^verbatim>\<open>np.std\<close>, \<^verbatim>\<open>np.dot\<close> and
  \<^verbatim>\<open>np.linalg.norm\<close> on one-dimensional arrays.\<close>

primrec fsum :: "fval list \<Rightarrow> fval" where
  "fsum [] = Fin 0"
| "fsum (x # xs) = fadd x (fsum xs)"

definition np_mean :: "fval list \<Rightarrow> fval" where
  "np_mean xs = fdiv (fsum xs) (Fin (real (length xs)))"

definition np_std :: "fval list \<Rightarrow> fval" where
  "np_std xs =
     (let m = np_mean xs
      in fsqrt (np_mean (map (\<lambda>x. fmul (fsub x m) (fsub x m)) xs)))"

definition np_dot :: "fval list \<Rightarrow> fval list \<Rightarrow> fval" where
  "np_dot xs ys = fsum (map (\<lambda>(x, y). fmul x y) (zip xs ys))"

definition np_norm :: "fval list \<Rightarrow> fval" where
  "np_norm xs = fsqrt (fsum (map (\<lambda>x. fmul x x) xs))"

section \<open>Two-dimensional arrays\<close>

text \<open>
  A two-dimensional array is its shape and its cells. Only the cells inside the shape
  are ever read: every access of the source that can leave the shape is a bounds check
  in the model.
\<close>

datatype ndarray2 = NdArray2 (nrows: nat) (ncols: nat) (cell: "nat \<Rightarrow> nat \<Rightarrow> fval")

definition column :: "ndarray2 \<Rightarrow> nat \<Rightarrow> fval list" where
  "column a j = map (\<lambda>i. cell a i j) [0..<nrows a]"

definition ravel :: "ndarray2 \<Rightarrow> fval list" where
  "ravel a = concat (map (\<lambda>i. map (\<lambda>j. cell a i j) [0..<ncols a]) [0..<nrows a])"

definition of_rows :: "nat \<Rightarrow> fval list list \<Rightarrow> ndarray2" where
  "of_rows c rs = NdArray2 (length rs) c (\<lambda>i j. rs ! i ! j)"

section \<open>Correlation utilities\<close>

definition standardize :: "ndarray2 \<Rightarrow> ndarray2" where
  "standardize a =
     NdArray2 (nrows a) (ncols a)
       (\<lambda>i j. fdiv (fsub (cell a i j) (np_mean (column a j))) (np_std (column a j)))"

definition pearson_correlation :: "ndarray2 \<Rightarrow> ndarray2 \<Rightarrow> error + ndarray2" where
  "pearson_correlation x y =
     (if nrows x \<noteq> nrows y then Inl AssertionError
      else
        let x' = standardize x; y' = standardize y
        in Inr (NdArray2 (ncols x) (ncols y)
                  (\<lambda>i j. fdiv (np_dot (column x' i) (column y' j)) (Fin (real (nrows x))))))"

text \<open>The same source function applied to two one-dimensional arrays, as
  \<^verbatim>\<open>gamma_coefficients\<close> and \<^verbatim>\<open>compare_cophenetic\<close> do: the mean and the
  standard deviation are scalars and the dot product is the inner product.\<close>

definition standardize1 :: "fval list \<Rightarrow> fval list" where
  "standardize1 a = map (\<lambda>v. fdiv (fsub v (np_mean a)) (np_std a)) a"

definition pearson_cell :: "fval list \<Rightarrow> fval list \<Rightarrow> fval" where
  "pearson_cell x y = fdiv (np_dot (standardize1 x) (standardize1 y)) (Fin (real (length x)))"

definition pearson_correlation1 :: "fval list \<Rightarrow> fval list \<Rightarrow> error + fval" where
  "pearson_correlation1 x y =
     (if length x \<noteq> length y then Inl AssertionError else Inr (pearson_cell x y))"

definition cosine_similarity :: "fval list \<Rightarrow> fval list \<Rightarrow> error + fval" where
  "cosine_similarity x y =
     (if length x \<noteq> length y then Inl ValueError
      else Inr (fdiv (np_dot x y) (fmul (np_norm x) (np_norm y))))"

text \<open>\<^verbatim>\<open>upper_diag_list\<close>: the strict upper triangle is kept by \<^verbatim>\<open>np.triu(m_, k=1)\<close>,
  the diagonal and the lower triangle are overwritten with NaN, and the NaN cells are
  filtered out of the flattened array.\<close>

definition np_triu1 :: "ndarray2 \<Rightarrow> ndarray2" where
  "np_triu1 m = NdArray2 (nrows m) (ncols m) (\<lambda>i j. if i < j then cell m i j else Fin 0)"

definition np_tril :: "ndarray2 \<Rightarrow> ndarray2" where
  "np_tril m = NdArray2 (nrows m) (ncols m) (\<lambda>i j. if j \<le> i then cell m i j else Fin 0)"

definition zeros_like :: "ndarray2 \<Rightarrow> ndarray2" where
  "zeros_like m = NdArray2 (nrows m) (ncols m) (\<lambda>i j. Fin 0)"

definition add_scalar :: "ndarray2 \<Rightarrow> fval \<Rightarrow> ndarray2" where
  "add_scalar m v = NdArray2 (nrows m) (ncols m) (\<lambda>i j. fadd (cell m i j) v)"

definition add_arrays :: "ndarray2 \<Rightarrow> ndarray2 \<Rightarrow> ndarray2" where
  "add_arrays a b = NdArray2 (nrows a) (ncols a) (\<lambda>i j. fadd (cell a i j) (cell b i j))"

definition upper_diag_list :: "ndarray2 \<Rightarrow> fval list" where
  "upper_diag_list m0 =
     (let m = np_triu1 m0;
          tril = add_scalar (zeros_like m0) NaN;
          tril = np_tril tril;
          m = add_arrays m tril;
          m = ravel m
      in filter (\<lambda>v. v \<noteq> NaN) m)"

definition correlations_list ::
  "ndarray2 \<Rightarrow> ndarray2 \<Rightarrow> (ndarray2 \<Rightarrow> ndarray2 \<Rightarrow> error + ndarray2) \<Rightarrow> error + fval list"
where
  "correlations_list x y corr_fun =
     (case corr_fun x y of Inl e \<Rightarrow> Inl e | Inr corr \<Rightarrow> Inr (upper_diag_list corr))"

text \<open>The strict upper triangle of a matrix, row by row.\<close>

definition strict_upper :: "ndarray2 \<Rightarrow> fval list" where
  "strict_upper m =
     concat (map (\<lambda>i. map (\<lambda>j. cell m i j) [Suc i..<ncols m]) [0..<nrows m])"

section \<open>Regulatory correlations\<close>

text \<open>
  \<^verbatim>\<open>np.where(gene_symbols == tg)[0]\<close>: every position of a symbol. The list
  comprehension of the source keeps the targets that are present and makes one index
  array for each; \<^verbatim>\<open>np.array(...).ravel()\<close> lays them out in order when they have
  one common length, and fails on index arrays of different lengths (which needs a
  repeated gene symbol).
\<close>

definition where_eq :: "string list \<Rightarrow> string \<Rightarrow> nat list" where
  "where_eq gene_symbols s =
     filter (\<lambda>i. gene_symbols ! i = s) [0..<length gene_symbols]"

definition tg_idxs :: "string list \<Rightarrow> string list \<Rightarrow> error + nat list" where
  "tg_idxs gene_symbols tgs =
     (let found = map (where_eq gene_symbols) (filter (\<lambda>tg. tg \<in> set gene_symbols) tgs)
      in if \<forall>a \<in> set found. \<forall>b \<in> set found. length a = length b
         then Inr (concat found) else Inl ValueError)"

text \<open>\<^verbatim>\<open>expr[:, idxs]\<close>: the columns at the given positions, in the given order.\<close>

definition take_columns :: "ndarray2 \<Rightarrow> nat list \<Rightarrow> error + ndarray2" where
  "take_columns a idxs =
     (if \<forall>k \<in> set idxs. k < ncols a
      then Inr (NdArray2 (nrows a) (length idxs) (\<lambda>i j. cell a i (idxs ! j)))
      else Inl IndexError)"

text \<open>
  The body of the loop of \<^verbatim>\<open>compute_tf_tg_corrs\<close> for one item of the regulatory
  map: \<open>None\<close> when the TF is skipped, otherwise its TF-TG and TG-TG correlation
  lists. \<^verbatim>\<open>expr_tf[:, None]\<close> adds a unit axis to the TF's column, which the dot
  product carries along and \<^verbatim>\<open>ravel\<close> removes: the TF-TG list has one value for
  each target column.
\<close>

definition tf_entry ::
  "ndarray2 \<Rightarrow> string list \<Rightarrow> string \<times> string list \<Rightarrow> error + (fval list \<times> fval list) option"
where
  "tf_entry expr gene_symbols item =
     (case item of (tf, tgs) \<Rightarrow>
      case tg_idxs gene_symbols tgs of Inl e \<Rightarrow> Inl e | Inr idxs \<Rightarrow>
      if tf \<in> set gene_symbols \<and> 0 < length idxs then
        case take_columns expr idxs of Inl e \<Rightarrow> Inl e | Inr expr_tgs \<Rightarrow>
        case correlations_list expr_tgs expr_tgs pearson_correlation of Inl e \<Rightarrow> Inl e
        | Inr tg_corr \<Rightarrow>
        case take_columns expr [hd (where_eq gene_symbols tf)] of Inl e \<Rightarrow> Inl e
        | Inr expr_tf \<Rightarrow>
        case pearson_correlation expr_tf expr_tgs of Inl e \<Rightarrow> Inl e
        | Inr corr \<Rightarrow> Inr (Some (ravel corr, tg_corr))
      else Inr None)"

fun tf_loop ::
  "ndarray2 \<Rightarrow> string list \<Rightarrow> (string \<times> string list) list \<Rightarrow>
   fval list list \<times> fval list list \<Rightarrow> error + (fval list list \<times> fval list list)"
where
  "tf_loop expr gene_symbols [] acc = Inr acc"
| "tf_loop expr gene_symbols (item # items) (tf_tg_corr, tg_tg_corr) =
     (case tf_entry expr gene_symbols item of
        Inl e \<Rightarrow> Inl e
      | Inr None \<Rightarrow> tf_loop expr gene_symbols items (tf_tg_corr, tg_tg_corr)
      | Inr (Some (tf_tg, tg_tg)) \<Rightarrow>
          tf_loop expr gene_symbols items (tf_tg_corr @ [tf_tg], tg_tg_corr @ [tg_tg]))"

text \<open>The result of \<^verbatim>\<open>compute_tf_tg_corrs\<close> is a pair of flat lists or a pair of
  lists of lists, by the flag \<^verbatim>\<open>flat\<close>. The regulatory map is a dictionary, read in
  its iteration order: an association list.\<close>

datatype corrs = Flat "fval list" | Nested "fval list list"

definition compute_tf_tg_corrs ::
  "ndarray2 \<Rightarrow> string list \<Rightarrow> (string \<times> string list) list \<Rightarrow> bool \<Rightarrow> error + (corrs \<times> corrs)"
where
  "compute_tf_tg_corrs expr gene_symbols tf_tg flat =
     (case tf_loop expr gene_symbols tf_tg ([], []) of
        Inl e \<Rightarrow> Inl e
      | Inr (tf_tg_corr, tg_tg_corr) \<Rightarrow>
          if flat then Inr (Flat (concat tf_tg_corr), Flat (concat tg_tg_corr))
          else Inr (Nested tf_tg_corr, Nested tg_tg_corr))"

text \<open>A TF is eligible when it is a gene symbol and one of its targets is.\<close>

definition eligible :: "string list \<Rightarrow> string \<times> string list \<Rightarrow> bool" where
  "eligible gene_symbols item =
     (fst item \<in> set gene_symbols \<and> (\<exists>tg \<in> set (snd item). tg \<in> set gene_symbols))"

section \<open>Weighted aggregation\<close>

text \<open>
  The running sums of \<^verbatim>\<open>psi_coefficient\<close> and \<^verbatim>\<open>phi_coefficient\<close> start as the
  Python integer \<^verbatim>\<open>0\<close> and become NumPy floats once a NumPy float is added.
  The two kinds divide differently: a Python integer divided by the Python integer zero
  raises \<^verbatim>\<open>ZeroDivisionError\<close>, a division with a NumPy float follows IEEE 754.
\<close>

datatype pynum = PyInt int | NpFloat fval

fun to_fval :: "pynum \<Rightarrow> fval" where
  "to_fval (PyInt k) = Fin (real_of_int k)"
| "to_fval (NpFloat v) = v"

fun py_add :: "pynum \<Rightarrow> pynum \<Rightarrow> pynum" where
  "py_add (PyInt a) (PyInt b) = PyInt (a + b)"
| "py_add a b = NpFloat (fadd (to_fval a) (to_fval b))"

fun py_mul :: "pynum \<Rightarrow> pynum \<Rightarrow> pynum" where
  "py_mul (PyInt a) (PyInt b) = PyInt (a * b)"
| "py_mul a b = NpFloat (fmul (to_fval a) (to_fval b))"

fun py_truediv :: "pynum \<Rightarrow> pynum \<Rightarrow> error + fval" where
  "py_truediv (PyInt a) (PyInt b) =
     (if b = 0 then Inl ZeroDivisionError else Inr (Fin (real_of_int a / real_of_int b)))"
| "py_truediv a b = Inr (fdiv (to_fval a) (to_fval b))"

fun psi_loop ::
  "string \<Rightarrow> (fval list \<times> fval list) list \<Rightarrow> pynum \<times> pynum \<Rightarrow> error + (pynum \<times> pynum)"
where
  "psi_loop weights_type [] acc = Inr acc"
| "psi_loop weights_type ((cx, cz) # rest) (weights_sum, total_sum) =
     (let weight = (if weights_type = ''nb_genes'' then PyInt (int (length cx)) else PyInt 1)
      in case cosine_similarity cx cz of
           Inl e \<Rightarrow> Inl e
         | Inr c \<Rightarrow>
             psi_loop weights_type rest
               (py_add weights_sum weight, py_add total_sum (py_mul weight (NpFloat c))))"

definition psi_coefficient ::
  "fval list list \<Rightarrow> fval list list \<Rightarrow> string \<Rightarrow> error + fval"
where
  "psi_coefficient tf_tg_x tf_tg_z weights_type =
     (case psi_loop weights_type (zip tf_tg_x tf_tg_z) (PyInt 0, PyInt 0) of
        Inl e \<Rightarrow> Inl e
      | Inr (weights_sum, total_sum) \<Rightarrow> py_truediv total_sum weights_sum)"

text \<open>
  \<^verbatim>\<open>np.roots([1, b, c])\<close>: the two roots of the monic quadratic
  \<open>w\<^sup>2 + b w + c\<close>, the only polynomial the source gives it, when they are real.
  \<^verbatim>\<open>phi_coefficient\<close> calls it with \<open>b = 1\<close> and \<open>c = -2 len(cx)\<close> and
  \<open>len(cx) > 0\<close>, so the discriminant is positive there. Complex roots are outside the
  model.
\<close>

definition np_roots :: "real \<Rightarrow> real \<Rightarrow> real list option" where
  "np_roots b c =
     (let d = b * b - 4 * c
      in if d < 0 then None else Some [(- b + sqrt d) / 2, (- b - sqrt d) / 2])"

definition py_max :: "real list \<Rightarrow> real" where
  "py_max xs = fold max (tl xs) (hd xs)"

definition phi_weight :: "string \<Rightarrow> fval list \<Rightarrow> error + pynum" where
  "phi_weight weights_type cx =
     (if weights_type = ''nb_genes'' then
        (let x = length cx
         in case np_roots 1 (- 2 * real x) of
              None \<Rightarrow> Inl ValueError
            | Some roots \<Rightarrow> Inr (NpFloat (Fin (py_max roots))))
      else Inr (PyInt 1))"

fun phi_loop ::
  "string \<Rightarrow> (fval list \<times> fval list) list \<Rightarrow> pynum \<times> pynum \<Rightarrow> error + (pynum \<times> pynum)"
where
  "phi_loop weights_type [] acc = Inr acc"
| "phi_loop weights_type ((cx, cz) # rest) (weights_sum, total_sum) =
     (if 0 < length cx then
        case phi_weight weights_type cx of
          Inl e \<Rightarrow> Inl e
        | Inr weight \<Rightarrow>
            (case cosine_similarity cx cz of
               Inl e \<Rightarrow> Inl e
             | Inr c \<Rightarrow>
                 phi_loop weights_type rest
                   (py_add weights_sum weight, py_add total_sum (py_mul weight (NpFloat c))))
      else phi_loop weights_type rest (weights_sum, total_sum))"

definition phi_coefficient ::
  "fval list list \<Rightarrow> fval list list \<Rightarrow> string \<Rightarrow> error + fval"
where
  "phi_coefficient tg_tg_x tg_tg_z weights_type =
     (case phi_loop weights_type (zip tg_tg_x tg_tg_z) (PyInt 0, PyInt 0) of
        Inl e \<Rightarrow> Inl e
      | Inr (weights_sum, total_sum) \<Rightarrow> py_truediv total_sum weights_sum)"

section \<open>External routines\<close>

text \<open>
  The statistics and clustering routines the source imports from SciPy and statsmodels,
  and the regulatory network it loads, are parameters of the model:
  \<^item> \<open>linkage\<close>: \<^verbatim>\<open>scipy.cluster.hierarchy.linkage(y, 'complete')\<close>, from a
    condensed distance vector to a linkage matrix;
  \<^item> \<open>cophenet\<close>: the cophenetic correlation coefficient of
    \<^verbatim>\<open>scipy.cluster.hierarchy.cophenet(Z, Y)\<close>, the only component the source keeps;
  \<^item> \<open>mannwhitneyu\<close>: the p-value of
    \<^verbatim>\<open>scipy.stats.mannwhitneyu(x, y, alternative='two-sided')\<close>;
  \<^item> \<open>multipletests\<close>: the array \<^verbatim>\<open>reject\<close> of
    \<^verbatim>\<open>multipletests(pvals, alpha=0.05, method='fdr_bh')\<close>;
  \<^item> \<open>tf_tg_interactions\<close>: the regulatory map of module \<^verbatim>\<open>data_pipeline\<close>.
  A row of a linkage matrix is the two merged cluster ids, the merge distance and the
  size of the new cluster. The ids are whole numbers stored as floats; they are natural
  numbers here.
\<close>

type_synonym linkage_row = "nat \<times> nat \<times> fval \<times> nat"

record env =
  linkage :: "fval list \<Rightarrow> error + linkage_row list"
  cophenet :: "linkage_row list \<Rightarrow> fval list \<Rightarrow> error + fval"
  mannwhitneyu :: "fval list \<Rightarrow> fval list \<Rightarrow> error + fval"
  multipletests :: "fval list \<Rightarrow> error + bool list"
  tf_tg_interactions :: "(string \<times> string list) list"

section \<open>Transcription-factor activity\<close>

definition row :: "ndarray2 \<Rightarrow> nat \<Rightarrow> fval list" where
  "row a i = map (\<lambda>j. cell a i j) [0..<ncols a]"

text \<open>A loop that collects the results of a call that may raise.\<close>

fun collect :: "('a \<Rightarrow> error + 'b) \<Rightarrow> 'a list \<Rightarrow> error + 'b list" where
  "collect f [] = Inr []"
| "collect f (x # xs) =
     (case f x of
        Inl e \<Rightarrow> Inl e
      | Inr y \<Rightarrow> (case collect f xs of Inl e \<Rightarrow> Inl e | Inr ys \<Rightarrow> Inr (y # ys)))"

text \<open>
  The body of the loop of \<^verbatim>\<open>find_chip_rates\<close> for one item of the regulatory map:
  \<open>None\<close> when the TF is skipped, otherwise its chip rate and its weight. The
  indices of the other genes come out of a Python set of small integers, in
  ascending order. \<^verbatim>\<open>np.sum(reject)\<close> counts the rejected samples.
\<close>

definition chip_entry ::
  "env \<Rightarrow> ndarray2 \<Rightarrow> string list \<Rightarrow> string \<times> string list \<Rightarrow> error + (fval \<times> nat) option"
where
  "chip_entry ext expr gene_symbols item =
     (case item of (tf, tgs) \<Rightarrow>
      let nb_samples = nrows expr; nb_genes = ncols expr; expr_norm = standardize expr in
      case tg_idxs gene_symbols tgs of Inl e \<Rightarrow> Inl e | Inr idxs \<Rightarrow>
      if tf \<in> set gene_symbols \<and> 0 < length idxs then
        case take_columns expr_norm idxs of Inl e \<Rightarrow> Inl e | Inr expr_tgs \<Rightarrow>
        let non_tg_idxs = filter (\<lambda>i. i \<notin> set idxs) [0..<nb_genes] in
        case take_columns expr_norm non_tg_idxs of Inl e \<Rightarrow> Inl e | Inr expr_non_tgs \<Rightarrow>
        case collect (\<lambda>i. mannwhitneyu ext (row expr_tgs i) (row expr_non_tgs i))
               [0..<nb_samples] of Inl e \<Rightarrow> Inl e
        | Inr p_values \<Rightarrow>
        case multipletests ext p_values of Inl e \<Rightarrow> Inl e
        | Inr reject \<Rightarrow>
            Inr (Some (fdiv (Fin (real (length (filter id reject)))) (Fin (real nb_samples)),
                       length idxs))
      else Inr None)"

fun chip_loop ::
  "env \<Rightarrow> ndarray2 \<Rightarrow> string list \<Rightarrow> (string \<times> string list) list \<Rightarrow>
   fval list \<times> nat list \<Rightarrow> error + (fval list \<times> nat list)"
where
  "chip_loop ext expr gene_symbols [] acc = Inr acc"
| "chip_loop ext expr gene_symbols (item # items) (active_tfs, weights) =
     (case chip_entry ext expr gene_symbols item of
        Inl e \<Rightarrow> Inl e
      | Inr None \<Rightarrow> chip_loop ext expr gene_symbols items (active_tfs, weights)
      | Inr (Some (chip_rate, weight)) \<Rightarrow>
          chip_loop ext expr gene_symbols items (active_tfs @ [chip_rate], weights @ [weight]))"

definition find_chip_rates ::
  "env \<Rightarrow> ndarray2 \<Rightarrow> string list \<Rightarrow> (string \<times> string list) list \<Rightarrow>
   error + (fval list \<times> nat list)"
where
  "find_chip_rates ext expr gene_symbols tf_tg = chip_loop ext expr gene_symbols tf_tg ([], [])"

text \<open>The number of a TF's targets that are gene symbols, repeated targets counted
  as often as they are listed.\<close>

definition present_targets :: "string list \<Rightarrow> string \<times> string list \<Rightarrow> nat" where
  "present_targets gene_symbols item =
     length (filter (\<lambda>tg. tg \<in> set gene_symbols) (snd item))"

text \<open>
  \<^verbatim>\<open>(weights_x == weights_y).all()\<close>: arrays of one length are compared cell by
  cell, an array of length one is broadcast against the other, and any other pair of
  lengths makes the comparison fail.
\<close>

definition np_eq_all :: "nat list \<Rightarrow> nat list \<Rightarrow> error + bool" where
  "np_eq_all a b =
     (if length a = length b then Inr (a = b)
      else if length a = 1 then Inr (\<forall>y \<in> set b. hd a = y)
      else if length b = 1 then Inr (\<forall>x \<in> set a. x = hd b)
      else Inl ValueError)"

text \<open>\<^verbatim>\<open>np.dot\<close> of two one-dimensional arrays needs one length.\<close>

definition np_dot1 :: "fval list \<Rightarrow> fval list \<Rightarrow> error + fval" where
  "np_dot1 xs ys = (if length xs \<noteq> length ys then Inl ValueError else Inr (np_dot xs ys))"

definition weighted_mean :: "fval list \<Rightarrow> fval list \<Rightarrow> error + fval" where
  "weighted_mean x w =
     (case np_dot1 w x of Inl e \<Rightarrow> Inl e | Inr d \<Rightarrow> Inr (fdiv d (fsum w)))"

definition weighted_var :: "fval list \<Rightarrow> fval list \<Rightarrow> fval \<Rightarrow> error + fval" where
  "weighted_var x w mean =
     (case np_dot1 w (map (\<lambda>v. fmul (fsub v mean) (fsub v mean)) x) of
        Inl e \<Rightarrow> Inl e
      | Inr d \<Rightarrow> Inr (fdiv d (fsum w)))"

definition weighted_covar ::
  "fval list \<Rightarrow> fval list \<Rightarrow> fval list \<Rightarrow> fval \<Rightarrow> fval \<Rightarrow> error + fval"
where
  "weighted_covar x y w mean_x mean_y =
     (if length w \<noteq> length x then Inl ValueError
      else
        case np_dot1 (map (\<lambda>(wi, xi). fmul wi (fsub xi mean_x)) (zip w x))
               (map (\<lambda>v. fsub v mean_y) y) of
          Inl e \<Rightarrow> Inl e
        | Inr d \<Rightarrow> Inr (fdiv d (fsum w)))"

text \<open>\<^verbatim>\<open>omega_coefficient\<close> after its two calls of \<^verbatim>\<open>find_chip_rates\<close>: the
  assertion on the weights, then the weighted correlation of the chip rates.\<close>

definition omega_stat :: "fval list \<Rightarrow> fval list \<Rightarrow> fval list \<Rightarrow> error + fval" where
  "omega_stat rates_x rates_y weights =
     (case weighted_mean rates_x weights of Inl e \<Rightarrow> Inl e | Inr mean_x \<Rightarrow>
      case weighted_mean rates_y weights of Inl e \<Rightarrow> Inl e | Inr mean_y \<Rightarrow>
      case weighted_var rates_x weights mean_x of Inl e \<Rightarrow> Inl e | Inr var_x \<Rightarrow>
      case weighted_var rates_y weights mean_y of Inl e \<Rightarrow> Inl e | Inr var_y \<Rightarrow>
      case weighted_covar rates_x rates_y weights mean_x mean_y of Inl e \<Rightarrow> Inl e
      | Inr covar \<Rightarrow> Inr (fdiv covar (fsqrt (fmul var_x var_y))))"

definition omega_from_rates ::
  "fval list \<Rightarrow> nat list \<Rightarrow> fval list \<Rightarrow> nat list \<Rightarrow> error + fval"
where
  "omega_from_rates rates_x weights_x rates_y weights_y =
     (case np_eq_all weights_x weights_y of
        Inl e \<Rightarrow> Inl e
      | Inr equal \<Rightarrow>
          if \<not> equal then Inl AssertionError
          else omega_stat rates_x rates_y (map (\<lambda>w. Fin (real w)) weights_x))"

definition omega_coefficient ::
  "env \<Rightarrow> ndarray2 \<Rightarrow> ndarray2 \<Rightarrow> string list \<Rightarrow> error + fval"
where
  "omega_coefficient ext expr_x expr_z gene_symbols =
     (let tf_tg = tf_tg_interactions ext in
      case find_chip_rates ext expr_x gene_symbols tf_tg of Inl e \<Rightarrow> Inl e
      | Inr (rates_x, weights_x) \<Rightarrow>
      case find_chip_rates ext expr_z gene_symbols tf_tg of Inl e \<Rightarrow> Inl e
      | Inr (rates_y, weights_y) \<Rightarrow>
          omega_from_rates rates_x weights_x rates_y weights_y)"

section \<open>Clustering utilities\<close>

text \<open>
  Modelled from the spec: the class \<^verbatim>\<open>Cluster\<close> of module \<^verbatim>\<open>clustering\<close>, which
  is not among the sources. A leaf holds one gene index; an inner node holds its two
  children, and its indices are those of the left child followed by those of the
  right child.
\<close>

datatype cluster = Leaf nat | Node cluster cluster

fun indices :: "cluster \<Rightarrow> nat list" where
  "indices (Leaf i) = [i]"
| "indices (Node l r) = indices l @ indices r"

definition set_cell :: "ndarray2 \<Rightarrow> nat \<Rightarrow> nat \<Rightarrow> fval \<Rightarrow> error + ndarray2" where
  "set_cell m i j v =
     (if i < nrows m \<and> j < ncols m
      then Inr (NdArray2 (nrows m) (ncols m) ((cell m)(i := (cell m i)(j := v))))
      else Inl IndexError)"

text \<open>The two nested loops of \<^verbatim>\<open>dendrogram_distance\<close> over the index pairs of the
  two merged clusters.\<close>

fun fill_inner :: "nat \<Rightarrow> nat list \<Rightarrow> fval \<Rightarrow> ndarray2 \<Rightarrow> error + ndarray2" where
  "fill_inner c1_idx [] distance m = Inr m"
| "fill_inner c1_idx (c2_idx # c2_indices) distance m =
     (case set_cell m c1_idx c2_idx distance of Inl e \<Rightarrow> Inl e | Inr m1 \<Rightarrow>
      case set_cell m1 c2_idx c1_idx distance of Inl e \<Rightarrow> Inl e | Inr m2 \<Rightarrow>
        fill_inner c1_idx c2_indices distance m2)"

fun fill_outer :: "nat list \<Rightarrow> nat list \<Rightarrow> fval \<Rightarrow> ndarray2 \<Rightarrow> error + ndarray2" where
  "fill_outer [] c2_indices distance m = Inr m"
| "fill_outer (c1_idx # c1_indices) c2_indices distance m =
     (case fill_inner c1_idx c2_indices distance m of Inl e \<Rightarrow> Inl e
      | Inr m1 \<Rightarrow> fill_outer c1_indices c2_indices distance m1)"

text \<open>The loop over the rows of the linkage matrix; \<open>i\<close> is the row number. A
  cluster id that is not a key of the dictionary raises \<^verbatim>\<open>KeyError\<close>.\<close>

fun merge_loop ::
  "nat \<Rightarrow> nat \<Rightarrow> linkage_row list \<Rightarrow> (nat \<rightharpoonup> cluster) \<Rightarrow> ndarray2 \<Rightarrow> error + ndarray2"
where
  "merge_loop nb_genes i [] clusters m = Inr m"
| "merge_loop nb_genes i ((c1, c2, distance, n_elems) # rest) clusters m =
     (case clusters c1 of None \<Rightarrow> Inl KeyError | Some left \<Rightarrow>
      case clusters c2 of None \<Rightarrow> Inl KeyError | Some right \<Rightarrow>
      case fill_outer (indices left) (indices right) distance m of Inl e \<Rightarrow> Inl e
      | Inr m1 \<Rightarrow>
          merge_loop nb_genes (Suc i) rest
            (clusters(nb_genes + i \<mapsto> Node left right)) m1)"

datatype dists = Condensed "fval list" | Full ndarray2

definition dendrogram_distance :: "linkage_row list \<Rightarrow> bool \<Rightarrow> error + dists" where
  "dendrogram_distance l_matrix condensed =
     (let nb_genes = length l_matrix + 1;
          clusters = (\<lambda>i. if i < nb_genes then Some (Leaf i) else None);
          m = NdArray2 nb_genes nb_genes (\<lambda>i j. Fin 0)
      in case merge_loop nb_genes 0 l_matrix clusters m of
           Inl e \<Rightarrow> Inl e
         | Inr m1 \<Rightarrow> if condensed then Inr (Condensed (upper_diag_list m1)) else Inr (Full m1))"

definition compare_cophenetic :: "linkage_row list \<Rightarrow> linkage_row list \<Rightarrow> error + fval" where
  "compare_cophenetic l_matrix1 l_matrix2 =
     (case dendrogram_distance l_matrix1 True of
        Inl e \<Rightarrow> Inl e
      | Inr (Full m) \<Rightarrow> Inl ValueError
      | Inr (Condensed dists1) \<Rightarrow>
          (case dendrogram_distance l_matrix2 True of
             Inl e \<Rightarrow> Inl e
           | Inr (Full m) \<Rightarrow> Inl ValueError
           | Inr (Condensed dists2) \<Rightarrow> pearson_correlation1 dists1 dists2))"

definition hierarchical_clustering ::
  "env \<Rightarrow> ndarray2 \<Rightarrow> (ndarray2 \<Rightarrow> ndarray2 \<Rightarrow> error + ndarray2) \<Rightarrow> error + linkage_row list"
where
  "hierarchical_clustering ext data corr_fun =
     (case correlations_list data data corr_fun of
        Inl e \<Rightarrow> Inl e
      | Inr c \<Rightarrow> linkage ext (map (\<lambda>v. fsub (Fin 1) v) c))"

section \<open>The score vector\<close>

definition gamma_coefficients ::
  "env \<Rightarrow> ndarray2 \<Rightarrow> ndarray2 \<Rightarrow> error + (fval \<times> fval \<times> fval \<times> fval)"
where
  "gamma_coefficients ext expr_x expr_z =
     and_then (correlations_list expr_x expr_x pearson_correlation) (\<lambda>cx.
     and_then (correlations_list expr_z expr_z pearson_correlation) (\<lambda>cz.
     let dists_x = map (\<lambda>v. fsub (Fin 1) v) cx;
         dists_z = map (\<lambda>v. fsub (Fin 1) v) cz in
     and_then (pearson_correlation1 dists_x dists_z) (\<lambda>gamma_dx_dz.
     and_then (hierarchical_clustering ext expr_x pearson_correlation) (\<lambda>xl_matrix.
     and_then (cophenet ext xl_matrix dists_x) (\<lambda>gamma_dx_tx.
     and_then (hierarchical_clustering ext expr_z pearson_correlation) (\<lambda>zl_matrix.
     and_then (cophenet ext zl_matrix dists_z) (\<lambda>gamma_dz_tz.
     and_then (compare_cophenetic xl_matrix zl_matrix) (\<lambda>gamma_tx_tz.
       Inr (gamma_dx_dz, gamma_dx_tx, gamma_dz_tz, gamma_tx_tz)))))))))"

text \<open>The lists of lists that \<^verbatim>\<open>compute_tf_tg_corrs\<close> returns with
  \<^verbatim>\<open>flat=False\<close>; iterating flat lists pairwise, as the aggregators would on the
  other result, is outside the model.\<close>

fun nested :: "corrs \<Rightarrow> error + fval list list" where
  "nested (Nested xs) = Inr xs"
| "nested (Flat xs) = Inl ValueError"

definition compute_scores ::
  "env \<Rightarrow> ndarray2 \<Rightarrow> ndarray2 \<Rightarrow> string list \<Rightarrow> error + fval list"
where
  "compute_scores ext expr_x expr_z gene_symbols =
     and_then (gamma_coefficients ext expr_x expr_z)
       (\<lambda>(gamma_dx_dz, gamma_dx_tx, gamma_dz_tz, gamma_tx_tz).
     and_then (compute_tf_tg_corrs expr_x gene_symbols (tf_tg_interactions ext) False)
       (\<lambda>(r_tf_tg_corr, r_tg_tg_corr).
     and_then (compute_tf_tg_corrs expr_z gene_symbols (tf_tg_interactions ext) False)
       (\<lambda>(s_tf_tg_corr, s_tg_tg_corr).
     and_then (nested r_tf_tg_corr) (\<lambda>r_tf_tg.
     and_then (nested s_tf_tg_corr) (\<lambda>s_tf_tg.
     and_then (nested r_tg_tg_corr) (\<lambda>r_tg_tg.
     and_then (nested s_tg_tg_corr) (\<lambda>s_tg_tg.
     and_then (psi_coefficient r_tf_tg s_tf_tg ''nb_genes'') (\<lambda>psi_dx_dz.
     and_then (phi_coefficient r_tg_tg s_tg_tg ''nb_genes'') (\<lambda>phi_dx_dz.
     and_then (omega_coefficient ext expr_x expr_z gene_symbols) (\<lambda>omega_coeff.
       Inr [gamma_dx_dz,
            gamma_tx_tz,
            fmul (fsub gamma_dx_tx gamma_dz_tz) (fsub gamma_dx_tx gamma_dz_tz),
            psi_dx_dz,
            phi_dx_dz,
            omega_coeff]))))))))))"

section \<open>Finite vectors\<close>

text \<open>
  The theorems about correlations are about arrays of finite values. On them the
  operations above are the operations of the reals: the mean, the variance, the
  standardised vector and the dot product of a list of reals are named here, and
  \<open>is_constant\<close> says that an array holds at most one value.
\<close>

fun rval :: "fval \<Rightarrow> real" where
  "rval (Fin a) = a"
| "rval v = 0"

definition rmean :: "real list \<Rightarrow> real" where
  "rmean rs = sum_list rs / real (length rs)"

definition rvar :: "real list \<Rightarrow> real" where
  "rvar rs = rmean (map (\<lambda>r. (r - rmean rs) * (r - rmean rs)) rs)"

definition rstandardize :: "real list \<Rightarrow> real list" where
  "rstandardize rs = map (\<lambda>r. (r - rmean rs) / sqrt (rvar rs)) rs"

definition rdot :: "real list \<Rightarrow> real list \<Rightarrow> real" where
  "rdot xs ys = sum_list (map (\<lambda>(x, y). x * y) (zip xs ys))"

definition is_constant :: "'a list \<Rightarrow> bool" where
  "is_constant xs = (\<forall>x \<in> set xs. \<forall>y \<in> set xs. x = y)"

section \<open>A small data set\<close>

text \<open>Two samples of three genes, and regulatory maps over them, on which the
  theorems below are instantiated.\<close>

definition example_symbols :: "string list" where
  "example_symbols = [''TF1'', ''G1'', ''G2'']"

definition example_expr :: ndarray2 where
  "example_expr = of_rows 3 [[Fin 1, Fin 1, Fin (- 1)], [Fin (- 1), Fin (- 1), Fin 1]]"

definition example_map :: "(string \<times> string list) list" where
  "example_map = [(''TF1'', [''G1'', ''G2'']), (''TF2'', [''G9999''])]"

text \<open>Stand-ins for the external routines: a two-merge linkage matrix, a fixed
  cophenetic coefficient, a test that is significant for a single target only, and a
  correction that rejects exactly the significant samples.\<close>

definition example_env :: env where
  "example_env =
     \<lparr>linkage = (\<lambda>y. Inr [(0, 1, Fin 0, 2), (2, 3, Fin 2, 3)]),
      cophenet = (\<lambda>z y. Inr (Fin (1 / 2))),
      mannwhitneyu = (\<lambda>x y. Inr (Fin (if length x = 1 then 1 / 100 else 1 / 2))),
      multipletests = (\<lambda>pvals. Inr (map (\<lambda>p. p = Fin (1 / 100)) pvals)),
      tf_tg_interactions = [(''TF1'', [''G1'', ''G2'']), (''G1'', [''G2''])]\<rparr>"

text \<open>The same stand-ins with an empty regulatory map, and with a map of one TF.\<close>

definition example_env_no_tf :: env where
  "example_env_no_tf = example_env\<lparr>tf_tg_interactions := []\<rparr>"

definition example_env_one_tf :: env where
  "example_env_one_tf = example_env\<lparr>tf_tg_interactions := [(''TF1'', [''G1'', ''G2''])]\<rparr>"

section \<open>Properties of the condensed upper triangle\<close>

lemma fadd_zero_right: "fadd v (Fin 0) = v"
  by (cases v) simp_all

lemma upper_diag_cell:
  "fadd (if i < j then c else Fin 0) (if j \<le> i then NaN else Fin 0) =
     (if (i::nat) < j then c else NaN)"
  by (cases "i < j") (simp_all add: fadd_zero_right)

lemma upper_diag_list_rows:
  "upper_diag_list m =
     concat (map (\<lambda>i. filter (\<lambda>v. v \<noteq> NaN)
       (map (\<lambda>j. if i < j then cell m i j else NaN) [0..<ncols m])) [0..<nrows m])"
  by (simp add: upper_diag_list_def ravel_def np_triu1_def np_tril_def zeros_like_def
      add_scalar_def add_arrays_def filter_concat comp_def upper_diag_cell
      cong: if_cong)

lemma filter_row_upper:
  assumes "\<forall>j. i < j \<and> j < n \<longrightarrow> f j \<noteq> NaN"
  shows "filter (\<lambda>v. v \<noteq> NaN) (map (\<lambda>j. if i < j then f j else NaN) [0..<n]) =
         map f [Suc i..<n]"
proof (cases "Suc i \<le> n")
  case True
  then have split: "[0..<n] = [0..<Suc i] @ [Suc i..<n]"
    by (metis le0 upt_add_eq_append le_add_diff_inverse)
  have low: "filter (\<lambda>v. v \<noteq> NaN) (map (\<lambda>j. if i < j then f j else NaN) [0..<Suc i]) = []"
    by (auto simp: filter_empty_conv)
  have high: "filter (\<lambda>v. v \<noteq> NaN) (map (\<lambda>j. if i < j then f j else NaN) [Suc i..<n]) =
      map f [Suc i..<n]"
    using assms by (auto simp: filter_map comp_def intro!: map_cong filter_True)
  show ?thesis
    unfolding split map_append filter_append low high by simp
next
  case False
  then have "n \<le> i" by simp
  then show ?thesis
    by (auto simp: filter_empty_conv)
qed

lemma upper_diag_list_no_nan:
  assumes "\<forall>i j. i < j \<and> j < ncols m \<longrightarrow> cell m i j \<noteq> NaN"
  shows "upper_diag_list m = strict_upper m"
  unfolding upper_diag_list_rows strict_upper_def
  by (rule arg_cong [where f = concat], rule map_cong, simp,
      rule filter_row_upper, use assms in blast)

lemma length_strict_upper_aux:
  "(\<Sum>i\<leftarrow>[0..<k]. n - Suc i) * 2 + (n - k) * (n - k - 1) = n * (n - 1)" if "k \<le> n"
  using that
proof (induction k)
  case 0
  then show ?case by simp
next
  case (Suc k)
  then have ih: "(\<Sum>i\<leftarrow>[0..<k]. n - Suc i) * 2 + (n - k) * (n - k - 1) = n * (n - 1)"
    by simp
  obtain d where d: "n - k = Suc d"
    using Suc.prems by (metis Suc_diff_Suc Suc_le_lessD)
  then have d': "n - Suc k = d" by simp
  show ?case
    using ih by (simp add: d d' algebra_simps)
qed

lemma length_strict_upper:
  assumes "nrows m = n" "ncols m = n"
  shows "length (strict_upper m) = n * (n - 1) div 2"
proof -
  have "length (strict_upper m) = (\<Sum>i\<leftarrow>[0..<n]. n - Suc i)"
    by (simp add: strict_upper_def assms length_concat comp_def)
  moreover have "(\<Sum>i\<leftarrow>[0..<n]. n - Suc i) * 2 = n * (n - 1)"
    using length_strict_upper_aux [of n n] by simp
  ultimately show ?thesis by simp
qed


lemma fadd_NaN_right [simp]: "fadd v NaN = NaN"
  by (cases v) simp_all

lemma fmul_NaN_right [simp]: "fmul v NaN = NaN"
  by (cases v) simp_all

lemma fdiv_NaN_right [simp]: "fdiv v NaN = NaN"
  by (cases v) simp_all

lemma upper_diag_list_1x1:
  "nrows c = 1 \<Longrightarrow> ncols c = 1 \<Longrightarrow> upper_diag_list c = []"
  by (simp add: upper_diag_list_rows)

text \<open>
  Claim C5. For every \<open>n \<times> n\<close> matrix, \<^verbatim>\<open>upper_diag_list\<close> returns exactly
  \<open>n (n - 1) / 2\<close> values, the strict upper triangle in row-major order. The source
  marks the cells to drop with NaN and then drops every NaN, so a NaN of the matrix
  itself is dropped too (\<open>upper_diag_list_no_nan\<close> and \<open>length_strict_upper\<close>
  give the claim for a matrix with no NaN above the diagonal). The correlation matrix
  of two genes, one of them constant over the samples, has NaN above the diagonal: the
  condensed list is empty, where the docstring of the source promises one value.
\<close>

theorem upper_diag_list_drops_nan:
  "upper_diag_list (of_rows 2 [[Fin 1, NaN], [NaN, NaN]]) = [] \<and>
   correlations_list (of_rows 2 [[Fin 1, Fin 5], [Fin 2, Fin 5]])
     (of_rows 2 [[Fin 1, Fin 5], [Fin 2, Fin 5]]) pearson_correlation = Inr []"
proof
  show "upper_diag_list (of_rows 2 [[Fin 1, NaN], [NaN, NaN]]) = []"
    by (simp add: upper_diag_list_rows of_rows_def upt_rec)
  show "correlations_list (of_rows 2 [[Fin 1, Fin 5], [Fin 2, Fin 5]])
     (of_rows 2 [[Fin 1, Fin 5], [Fin 2, Fin 5]]) pearson_correlation = Inr []"
    apply (simp add: correlations_list_def pearson_correlation_def upper_diag_list_rows
        of_rows_def Let_def)
    apply (simp add: upt_rec standardize_def column_def np_dot_def np_mean_def np_std_def
        fsub_def)
    done
qed

section \<open>Properties of the regulatory correlations\<close>

lemma where_eq_bound: "k \<in> set (where_eq gs s) \<Longrightarrow> k < length gs"
  by (simp add: where_eq_def)

lemma where_eq_nonempty: "s \<in> set gs \<Longrightarrow> where_eq gs s \<noteq> []"
  by (auto simp: where_eq_def filter_empty_conv in_set_conv_nth)

lemma hd_where_eq_bound: "s \<in> set gs \<Longrightarrow> hd (where_eq gs s) < length gs"
  using where_eq_nonempty [of s gs] where_eq_bound [of "hd (where_eq gs s)" gs s]
  by simp

lemma where_eq_distinct:
  assumes "distinct gs" "s \<in> set gs"
  shows "length (where_eq gs s) = 1"
proof -
  obtain k where k: "k < length gs" "gs ! k = s"
    using assms(2) by (auto simp: in_set_conv_nth)
  have "filter (\<lambda>i. gs ! i = s) [0..<length gs] = filter (\<lambda>i. i = k) [0..<length gs]"
    using assms(1) k by (intro filter_cong) (auto simp: nth_eq_iff_index_eq)
  also have "\<dots> = [k]"
    using k(1) by (induction gs rule: rev_induct) (auto simp: less_Suc_eq filter_empty_conv)
  finally show ?thesis by (simp add: where_eq_def)
qed

lemma tg_idxs_bound:
  "tg_idxs gs tgs = Inr idxs \<Longrightarrow> k \<in> set idxs \<Longrightarrow> k < length gs"
  by (auto simp: tg_idxs_def Let_def where_eq_bound split: if_splits)

lemma tg_idxs_distinct:
  assumes "distinct gs"
  shows "tg_idxs gs tgs = Inr (concat (map (where_eq gs) (filter (\<lambda>tg. tg \<in> set gs) tgs)))"
  using where_eq_distinct [OF assms]
  by (auto simp: tg_idxs_def Let_def)

lemma tg_idxs_nonempty_iff:
  assumes "tg_idxs gs tgs = Inr idxs"
  shows "0 < length idxs \<longleftrightarrow> (\<exists>tg \<in> set tgs. tg \<in> set gs)"
proof -
  have idxs: "idxs = concat (map (where_eq gs) (filter (\<lambda>tg. tg \<in> set gs) tgs))"
    using assms by (auto simp: tg_idxs_def Let_def split: if_splits)
  show ?thesis
    unfolding idxs using where_eq_nonempty [of _ gs]
    by (auto simp: filter_empty_conv)
qed

lemma tf_entry_None:
  assumes "tg_idxs gs tgs = Inr idxs" "\<not> eligible gs (tf, tgs)"
  shows "tf_entry expr gs (tf, tgs) = Inr None"
  using assms tg_idxs_nonempty_iff [OF assms(1)]
  by (auto simp: tf_entry_def eligible_def)

lemma tf_entry_Some:
  assumes "tg_idxs gs tgs = Inr idxs" "ncols expr = length gs" "eligible gs (tf, tgs)"
  shows "\<exists>a b. tf_entry expr gs (tf, tgs) = Inr (Some (a, b))"
  using assms tg_idxs_bound [OF assms(1)] tg_idxs_nonempty_iff [OF assms(1)]
    hd_where_eq_bound [of tf gs]
  by (auto simp: tf_entry_def eligible_def take_columns_def correlations_list_def
      pearson_correlation_def Let_def)

lemma tf_entry_single:
  assumes "tg_idxs gs tgs = Inr [k]" "ncols expr = length gs" "tf \<in> set gs"
  shows "\<exists>a. tf_entry expr gs (tf, tgs) = Inr (Some (a, []))"
  using assms tg_idxs_bound [OF assms(1)] hd_where_eq_bound [of tf gs]
  by (auto simp: tf_entry_def take_columns_def correlations_list_def
      pearson_correlation_def Let_def upper_diag_list_1x1)

lemma tf_loop_entries:
  assumes "\<forall>item \<in> set items.
      (eligible gs item \<longrightarrow> (\<exists>p. tf_entry expr gs item = Inr (Some p))) \<and>
      (\<not> eligible gs item \<longrightarrow> tf_entry expr gs item = Inr None)"
  shows "tf_loop expr gs items (A, B) =
     Inr (A @ map (\<lambda>item. fst (the (projr (tf_entry expr gs item)))) (filter (eligible gs) items),
          B @ map (\<lambda>item. snd (the (projr (tf_entry expr gs item)))) (filter (eligible gs) items))"
  using assms
proof (induction items arbitrary: A B)
  case Nil
  then show ?case by simp
next
  case (Cons item items)
  show ?case
  proof (cases "eligible gs item")
    case True
    then obtain a b where "tf_entry expr gs item = Inr (Some (a, b))"
      using Cons.prems by fastforce
    then show ?thesis
      using True Cons.IH [of "A @ [a]" "B @ [b]"] Cons.prems by simp
  next
    case False
    then have "tf_entry expr gs item = Inr None"
      using Cons.prems by simp
    then show ?thesis
      using False Cons.IH [of A B] Cons.prems by simp
  qed
qed

lemma example_shape:
  "distinct example_symbols" "ncols example_expr = length example_symbols"
  by (simp_all add: example_symbols_def example_expr_def of_rows_def)

lemma example_tg_idxs: "tg_idxs example_symbols [''G1'', ''G2''] = Inr [1, 2]"
  by (simp add: tg_idxs_def where_eq_def example_symbols_def upt_rec)

lemma example_entry:
  "tf_entry example_expr example_symbols (''TF1'', [''G1'', ''G2'']) =
     Inr (Some ([Fin 1, Fin (- 1)], [Fin (- 1)]))"
  apply (simp add: tf_entry_def example_tg_idxs)
  apply (simp add: example_symbols_def example_expr_def of_rows_def where_eq_def
      take_columns_def upt_rec correlations_list_def pearson_correlation_def
      upper_diag_list_rows ravel_def Let_def)
  apply (simp add: upt_rec standardize_def column_def np_dot_def np_mean_def np_std_def
      fsub_def)
  done

text \<open>
  Claim C4. With unique gene symbols, one for each column of the expression matrix,
  \<^verbatim>\<open>compute_tf_tg_corrs\<close> returns, and its two lists hold one entry for each
  eligible TF of the regulatory map, in the order of the map: the entry of the \<open>i\<close>-th
  eligible TF is what the loop body computes for it. A TF that is not a gene symbol, or
  none of whose targets is, adds nothing.
\<close>

theorem compute_tf_tg_corrs_eligible:
  assumes "distinct gene_symbols" "ncols expr = length gene_symbols"
  shows "\<exists>a b. compute_tf_tg_corrs expr gene_symbols tf_tg False = Inr (Nested a, Nested b)
     \<and> length a = length (filter (eligible gene_symbols) tf_tg)
     \<and> length b = length (filter (eligible gene_symbols) tf_tg)
     \<and> (\<forall>i < length (filter (eligible gene_symbols) tf_tg).
          tf_entry expr gene_symbols (filter (eligible gene_symbols) tf_tg ! i) =
            Inr (Some (a ! i, b ! i)))
     \<and> (\<forall>item \<in> set tf_tg. \<not> eligible gene_symbols item \<longrightarrow>
          tf_entry expr gene_symbols item = Inr None)"
proof -
  let ?F = "filter (eligible gene_symbols) tf_tg"
  let ?e = "tf_entry expr gene_symbols"
  have some: "\<exists>p. ?e item = Inr (Some p)" if "eligible gene_symbols item" for item
    using tf_entry_Some [where tgs = "snd item" and tf = "fst item" and expr = expr,
        OF tg_idxs_distinct [OF assms(1)] assms(2)] that
    by auto
  have none: "?e item = Inr None" if "\<not> eligible gene_symbols item" for item
    using tf_entry_None [where tgs = "snd item" and tf = "fst item" and expr = expr,
        OF tg_idxs_distinct [OF assms(1)]] that
    by auto
  have loop: "tf_loop expr gene_symbols tf_tg ([], []) =
      Inr (map (\<lambda>item. fst (the (projr (?e item)))) ?F,
           map (\<lambda>item. snd (the (projr (?e item)))) ?F)"
    using tf_loop_entries [of tf_tg gene_symbols expr "[]" "[]"] some none by simp
  have nth: "?e (?F ! i) = Inr (Some (fst (the (projr (?e (?F ! i)))), snd (the (projr (?e (?F ! i))))))"
    if "i < length ?F" for i
  proof -
    have "eligible gene_symbols (?F ! i)"
      using that nth_mem [OF that] by simp
    then obtain p where "?e (?F ! i) = Inr (Some p)" using some by blast
    then show ?thesis by simp
  qed
  show ?thesis
    unfolding compute_tf_tg_corrs_def loop using nth none by simp
qed

theorem compute_tf_tg_corrs_eligible_witness:
  "distinct example_symbols \<and> ncols example_expr = length example_symbols \<and>
   (\<exists>a b. compute_tf_tg_corrs example_expr example_symbols example_map False =
        Inr (Nested a, Nested b)
     \<and> length a = length (filter (eligible example_symbols) example_map)
     \<and> length b = length (filter (eligible example_symbols) example_map)
     \<and> (\<forall>i < length (filter (eligible example_symbols) example_map).
          tf_entry example_expr example_symbols
            (filter (eligible example_symbols) example_map ! i) = Inr (Some (a ! i, b ! i)))
     \<and> (\<forall>item \<in> set example_map. \<not> eligible example_symbols item \<longrightarrow>
          tf_entry example_expr example_symbols item = Inr None))"
  using compute_tf_tg_corrs_eligible [OF example_shape, of example_map] example_shape
  by blast

section \<open>Properties of the weighted aggregation\<close>

lemma phi_weight_nb_genes:
  assumes "1 \<le> g" "length cx * 2 = g * (g - 1)"
  shows "phi_weight ''nb_genes'' cx = Inr (NpFloat (Fin (real g - 1)))"
proof -
  have "real (length cx) * 2 = real g * (real g - 1)"
    using assms by (metis of_nat_mult of_nat_numeral of_nat_diff of_nat_1)
  then have d: "1 + 8 * real (length cx) = (2 * real g - 1) * (2 * real g - 1)"
    by (simp add: algebra_simps)
  have pos: "0 \<le> 2 * real g - 1" using assms by simp
  have s: "sqrt (1 + 8 * real (length cx)) = 2 * real g - 1"
    unfolding d using pos by (simp add: real_sqrt_mult_self)
  have nn: "\<not> 1 + 8 * real (length cx) < 0"
  proof -
    have "0 \<le> real (length cx)" by simp
    then show ?thesis by linarith
  qed
  show ?thesis
    using s nn pos by (simp add: phi_weight_def np_roots_def py_max_def Let_def)
qed

text \<open>
  Claim C2. With \<^verbatim>\<open>weights_type='nb_genes'\<close> the weight of a TF in
  \<^verbatim>\<open>phi_coefficient\<close> is the positive root of \<open>w\<^sup>2 + w - 2 L = 0\<close>, where
  \<open>L = g (g - 1) / 2\<close> is the length of its TG-TG list, and the claim takes that root
  for \<open>g\<close>, the number of genes the TF regulates, as the comments of the source do.
  The positive root is \<open>g - 1\<close> (\<open>phi_weight_nb_genes\<close>): a TF with two targets
  has one pair and the weight 1, a TF with three targets has three pairs and the
  weight 2.
\<close>

theorem phi_weight_is_one_less:
  "phi_weight ''nb_genes'' [Fin (1 / 2)] = Inr (NpFloat (Fin 1)) \<and>
   phi_weight ''nb_genes'' [Fin (1 / 2), Fin (1 / 3), Fin (1 / 4)] = Inr (NpFloat (Fin 2))"
  using phi_weight_nb_genes [of 2 "[Fin (1 / 2)]"]
    phi_weight_nb_genes [of 3 "[Fin (1 / 2), Fin (1 / 3), Fin (1 / 4)]"]
  by simp

lemma cosine_similarity_example: "cosine_similarity [Fin (- 1)] [Fin (- 1)] = Inr (Fin 1)"
  by (simp add: cosine_similarity_def np_dot_def np_norm_def)

text \<open>
  Claim C3, as stated: a TF with exactly two present targets has an empty TG-TG list
  and \<^verbatim>\<open>phi_coefficient\<close> leaves it out of both sums. It fails: the TF of the example
  has the two targets G1 and G2, its TG-TG list holds their one correlation, and
  the loop of \<^verbatim>\<open>phi_coefficient\<close> adds a weight and a term for it.
\<close>

theorem two_targets_counterexample:
  "compute_tf_tg_corrs example_expr example_symbols [(''TF1'', [''G1'', ''G2''])] False =
     Inr (Nested [[Fin 1, Fin (- 1)]], Nested [[Fin (- 1)]]) \<and>
   phi_loop ''nb_genes'' (zip [[Fin (- 1)]] [[Fin (- 1)]]) (PyInt 0, PyInt 0) =
     Inr (NpFloat (Fin 1), NpFloat (Fin 1))"
proof -
  have w: "phi_weight ''nb_genes'' [Fin (- 1)] = Inr (NpFloat (Fin 1))"
    using phi_weight_nb_genes [of 2 "[Fin (- 1)]"] by simp
  show ?thesis
    by (simp add: compute_tf_tg_corrs_def example_entry w cosine_similarity_example)
qed

text \<open>
  Claim C3, amended: a TF that is a gene symbol and has exactly one present target
  has an empty TG-TG list (the correlation matrix of one gene has no cell above its
  diagonal), and the loop of \<^verbatim>\<open>phi_coefficient\<close> steps over an empty list without
  changing the sum of the weights or the weighted sum.
\<close>

theorem single_target_excluded:
  assumes "tf \<in> set gene_symbols" "tg_idxs gene_symbols tgs = Inr [k]"
    "ncols expr = length gene_symbols"
  shows "(\<exists>a. tf_entry expr gene_symbols (tf, tgs) = Inr (Some (a, []))) \<and>
    phi_loop weights_type (([], cz) # rest) (weights_sum, total_sum) =
      phi_loop weights_type rest (weights_sum, total_sum)"
  using tf_entry_single [OF assms(2,3,1)] by simp

theorem single_target_excluded_witness:
  "''TF1'' \<in> set example_symbols \<and> tg_idxs example_symbols [''G2''] = Inr [2] \<and>
   ncols example_expr = length example_symbols \<and>
   (\<exists>a. tf_entry example_expr example_symbols (''TF1'', [''G2'']) = Inr (Some (a, []))) \<and>
   phi_loop ''nb_genes'' (([], []) # []) (PyInt 0, PyInt 0) =
     phi_loop ''nb_genes'' [] (PyInt 0, PyInt 0)"
proof -
  have h1: "''TF1'' \<in> set example_symbols" by (simp add: example_symbols_def)
  have h2: "tg_idxs example_symbols [''G2''] = Inr [2]"
    by (simp add: tg_idxs_def where_eq_def example_symbols_def upt_rec)
  note h3 = example_shape(2)
  from single_target_excluded [OF h1 h2 h3, where cz = "[]" and weights_type = "''nb_genes''"
      and rest = "[]" and weights_sum = "PyInt 0" and total_sum = "PyInt 0"]
  show ?thesis using h1 h2 h3 by blast
qed

text \<open>
  Claim C9. When no TF is eligible the two lists are empty, both sums are still the
  Python integer \<^verbatim>\<open>0\<close>, and the final division of \<^verbatim>\<open>psi_coefficient\<close> and of
  \<^verbatim>\<open>phi_coefficient\<close> raises \<^verbatim>\<open>ZeroDivisionError\<close>: an error is reported, no NaN
  is returned.
\<close>

theorem empty_eligible_set_raises:
  "psi_coefficient [] [] weights_type = Inl ZeroDivisionError \<and>
   phi_coefficient [] [] weights_type = Inl ZeroDivisionError"
  by (simp add: psi_coefficient_def phi_coefficient_def)

section \<open>Properties of the transcription-factor activity\<close>

lemma collect_total:
  assumes "\<forall>x \<in> set xs. \<exists>y. f x = Inr y"
  shows "\<exists>ys. collect f xs = Inr ys \<and> length ys = length xs"
  using assms
proof (induction xs)
  case Nil
  then show ?case by simp
next
  case (Cons x xs)
  then obtain y ys where "f x = Inr y" "collect f xs = Inr ys" "length ys = length xs"
    by auto
  then show ?case by simp
qed

lemma length_concat_singletons:
  "\<forall>x \<in> set xs. length (f x) = 1 \<Longrightarrow> length (concat (map f xs)) = length xs"
  by (induction xs) simp_all

lemma tg_idxs_length_distinct:
  assumes "distinct gs" "tg_idxs gs tgs = Inr idxs"
  shows "length idxs = present_targets gs (tf, tgs)"
proof -
  have "idxs = concat (map (where_eq gs) (filter (\<lambda>tg. tg \<in> set gs) tgs))"
    using assms(2) tg_idxs_distinct [OF assms(1), of tgs] by simp
  then show ?thesis
    using where_eq_distinct [OF assms(1)]
    by (simp add: present_targets_def length_concat_singletons)
qed

lemma chip_entry_None:
  assumes "tg_idxs gs tgs = Inr idxs" "\<not> eligible gs (tf, tgs)"
  shows "chip_entry ext expr gs (tf, tgs) = Inr None"
  using assms tg_idxs_nonempty_iff [OF assms(1)]
  by (auto simp: chip_entry_def eligible_def Let_def)

lemma chip_entry_Some:
  assumes idxs: "tg_idxs gs tgs = Inr idxs" and cols: "ncols expr = length gs"
    and el: "eligible gs (tf, tgs)"
    and mw: "\<forall>x y. \<exists>p. mannwhitneyu ext x y = Inr p"
    and mt: "\<forall>ps. \<exists>reject. multipletests ext ps = Inr reject \<and> length reject = length ps"
  shows "\<exists>k. k \<le> nrows expr \<and>
    chip_entry ext expr gs (tf, tgs) =
      Inr (Some (fdiv (Fin (real k)) (Fin (real (nrows expr))), length idxs))"
proof -
  let ?n = "standardize expr"
  have nc: "ncols ?n = ncols expr" and nr: "nrows ?n = nrows expr"
    by (simp_all add: standardize_def)
  have pos: "tf \<in> set gs" "0 < length idxs"
    using el tg_idxs_nonempty_iff [OF idxs] by (auto simp: eligible_def)
  have b1: "\<forall>k \<in> set idxs. k < ncols ?n"
    using tg_idxs_bound [OF idxs] cols nc by simp
  obtain tgs_a where a: "take_columns ?n idxs = Inr tgs_a"
    using b1 by (simp add: take_columns_def)
  let ?non = "filter (\<lambda>i. i \<notin> set idxs) [0..<ncols expr]"
  obtain non_a where b: "take_columns ?n ?non = Inr non_a"
    using nc by (simp add: take_columns_def)
  obtain ps where ps: "collect (\<lambda>i. mannwhitneyu ext (row tgs_a i) (row non_a i)) [0..<nrows expr] = Inr ps"
    "length ps = nrows expr"
    using collect_total [of "[0..<nrows expr]" "\<lambda>i. mannwhitneyu ext (row tgs_a i) (row non_a i)"] mw
    by auto
  obtain reject where r: "multipletests ext ps = Inr reject" "length reject = length ps"
    using mt by blast
  have le: "length (filter id reject) \<le> nrows expr"
    using r(2) ps(2) length_filter_le [of id reject] by simp
  have "chip_entry ext expr gs (tf, tgs) =
      Inr (Some (fdiv (Fin (real (length (filter id reject)))) (Fin (real (nrows expr))), length idxs))"
    using pos by (simp add: chip_entry_def Let_def idxs a b ps r)
  then show ?thesis using le by blast
qed

lemma chip_loop_entries:
  assumes "\<forall>item \<in> set items.
      (eligible gs item \<longrightarrow> (\<exists>p. chip_entry ext expr gs item = Inr (Some p))) \<and>
      (\<not> eligible gs item \<longrightarrow> chip_entry ext expr gs item = Inr None)"
  shows "chip_loop ext expr gs items (A, B) =
     Inr (A @ map (\<lambda>item. fst (the (projr (chip_entry ext expr gs item)))) (filter (eligible gs) items),
          B @ map (\<lambda>item. snd (the (projr (chip_entry ext expr gs item)))) (filter (eligible gs) items))"
  using assms
proof (induction items arbitrary: A B)
  case Nil
  then show ?case by simp
next
  case (Cons item items)
  show ?case
  proof (cases "eligible gs item")
    case True
    then obtain a b where "chip_entry ext expr gs item = Inr (Some (a, b))"
      using Cons.prems by fastforce
    then show ?thesis
      using True Cons.IH [of "A @ [a]" "B @ [b]"] Cons.prems by simp
  next
    case False
    then have "chip_entry ext expr gs item = Inr None"
      using Cons.prems by simp
    then show ?thesis
      using False Cons.IH [of A B] Cons.prems by simp
  qed
qed

text \<open>
  Claim C10, as stated: for every expression matrix with \<open>nb_samples\<close> rows every
  chip rate that \<^verbatim>\<open>find_chip_rates\<close> returns is \<open>k / nb_samples\<close> with
  \<open>0 \<le> k \<le> nb_samples\<close> and lies between 0 and 1. It fails on a matrix with
  three gene columns and no sample row: no test is run, no sample is rejected, and
  the chip rate of the eligible TF is \<open>0 / 0\<close>, which is NaN.
\<close>

theorem find_chip_rates_no_samples:
  "find_chip_rates example_env (of_rows 3 []) example_symbols example_map =
     Inr ([NaN], [2])"
proof -
  have s: "nrows (standardize (of_rows 3 [])) = 0" "ncols (standardize (of_rows 3 [])) = 3"
    "nrows (of_rows 3 []) = 0" "ncols (of_rows 3 []) = 3"
    by (simp_all add: standardize_def of_rows_def)
  have t2: "tg_idxs example_symbols [''G9999''] = Inr []"
    by (simp add: tg_idxs_def where_eq_def example_symbols_def)
  have e1: "chip_entry example_env (of_rows 3 []) example_symbols (''TF1'', [''G1'', ''G2'']) =
      Inr (Some (NaN, 2))"
    apply (simp add: chip_entry_def Let_def example_tg_idxs take_columns_def s)
    apply (simp add: example_symbols_def example_env_def)
    done
  have e2: "chip_entry example_env (of_rows 3 []) example_symbols (''TF2'', [''G9999'']) =
      Inr None"
    by (simp add: chip_entry_def Let_def t2)
  show ?thesis
    by (simp add: find_chip_rates_def example_map_def e1 e2)
qed

text \<open>
  Claim C10, amended: the matrix has at least one sample row. With unique gene
  symbols, one for each column of the expression matrix, and external tests that
  return (a p-value for each sample, a rejection flag for each p-value),
  \<^verbatim>\<open>find_chip_rates\<close> returns two arrays with one entry for each eligible TF,
  in the iteration order of the map: the \<open>i\<close>-th chip rate and the \<open>i\<close>-th weight
  are the ones the loop body computes for the \<open>i\<close>-th eligible TF. Each weight is
  the TF's number of present targets and is positive; each chip rate is
  \<open>k / nb_samples\<close> for a whole number \<open>k\<close> between 0 and \<open>nb_samples\<close>, so it lies
  between 0 and 1.
\<close>

theorem find_chip_rates_shape:
  assumes "distinct gene_symbols" "ncols expr = length gene_symbols" "0 < nrows expr"
    and mw: "\<forall>x y. \<exists>p. mannwhitneyu ext x y = Inr p"
    and mt: "\<forall>ps. \<exists>reject. multipletests ext ps = Inr reject \<and> length reject = length ps"
  shows "\<exists>rates weights.
     find_chip_rates ext expr gene_symbols tf_tg = Inr (rates, weights)
     \<and> length rates = length (filter (eligible gene_symbols) tf_tg)
     \<and> length weights = length (filter (eligible gene_symbols) tf_tg)
     \<and> (\<forall>i < length (filter (eligible gene_symbols) tf_tg).
          chip_entry ext expr gene_symbols (filter (eligible gene_symbols) tf_tg ! i) =
            Inr (Some (rates ! i, weights ! i)))
     \<and> weights = map (present_targets gene_symbols) (filter (eligible gene_symbols) tf_tg)
     \<and> (\<forall>w \<in> set weights. 0 < w)
     \<and> (\<forall>i < length rates. \<exists>k. k \<le> nrows expr \<and>
           rates ! i = Fin (real k / real (nrows expr))
           \<and> 0 \<le> real k / real (nrows expr) \<and> real k / real (nrows expr) \<le> 1)"
proof -
  let ?F = "filter (eligible gene_symbols) tf_tg"
  let ?e = "chip_entry ext expr gene_symbols"
  let ?n = "nrows expr"
  have some: "\<exists>k. k \<le> ?n \<and>
      ?e item = Inr (Some (Fin (real k / real ?n), present_targets gene_symbols item))"
    if "eligible gene_symbols item" for item
  proof -
    obtain idxs where idxs: "tg_idxs gene_symbols (snd item) = Inr idxs"
      using tg_idxs_distinct [OF assms(1)] by blast
    have el: "eligible gene_symbols (fst item, snd item)"
      using that by simp
    from chip_entry_Some [OF idxs assms(2) el mw mt]
    obtain k where k: "k \<le> ?n"
      "chip_entry ext expr gene_symbols (fst item, snd item) =
         Inr (Some (fdiv (Fin (real k)) (Fin (real ?n)), length idxs))"
      by blast
    have len: "length idxs = present_targets gene_symbols item"
      using tg_idxs_length_distinct [OF assms(1) idxs, of "fst item"] by simp
    have "fdiv (Fin (real k)) (Fin (real ?n)) = Fin (real k / real ?n)"
      using assms(3) by simp
    then show ?thesis using k len by auto
  qed
  have none: "?e item = Inr None" if "\<not> eligible gene_symbols item" for item
    using chip_entry_None [where tgs = "snd item" and tf = "fst item" and expr = expr,
        OF tg_idxs_distinct [OF assms(1)]] that
    by auto
  have loop: "find_chip_rates ext expr gene_symbols tf_tg =
      Inr (map (\<lambda>item. fst (the (projr (?e item)))) ?F,
           map (\<lambda>item. snd (the (projr (?e item)))) ?F)"
    unfolding find_chip_rates_def
    using chip_loop_entries [of tf_tg gene_symbols ext expr "[]" "[]"] some none
    by (metis append_Nil)
  have w: "map (\<lambda>item. snd (the (projr (?e item)))) ?F = map (present_targets gene_symbols) ?F"
  proof (rule map_cong)
    fix item assume "item \<in> set ?F"
    then have "eligible gene_symbols item" by simp
    then show "snd (the (projr (?e item))) = present_targets gene_symbols item"
      using some by fastforce
  qed simp
  have wpos: "0 < present_targets gene_symbols item" if "eligible gene_symbols item" for item
    using that by (auto simp: eligible_def present_targets_def filter_empty_conv)
  have r: "\<exists>k. k \<le> ?n \<and> fst (the (projr (?e item))) = Fin (real k / real ?n)
      \<and> 0 \<le> real k / real ?n \<and> real k / real ?n \<le> 1"
    if "item \<in> set ?F" for item
  proof -
    have "eligible gene_symbols item" using that by simp
    then obtain k where k: "k \<le> ?n"
      "?e item = Inr (Some (Fin (real k / real ?n), present_targets gene_symbols item))"
      using some by blast
    have "real k / real ?n \<le> 1" using k(1) assms(3) by simp
    then show ?thesis using k by auto
  qed
  have nth: "?e (?F ! i) =
      Inr (Some (map (\<lambda>item. fst (the (projr (?e item)))) ?F ! i,
                 map (present_targets gene_symbols) ?F ! i))"
    if "i < length ?F" for i
  proof -
    have "eligible gene_symbols (?F ! i)"
      using nth_mem [OF that] by simp
    then obtain k where
      "?e (?F ! i) = Inr (Some (Fin (real k / real ?n), present_targets gene_symbols (?F ! i)))"
      using some by blast
    then show ?thesis using that by simp
  qed
  have rate: "\<exists>k. k \<le> ?n \<and>
      map (\<lambda>item. fst (the (projr (?e item)))) ?F ! i = Fin (real k / real ?n)
      \<and> 0 \<le> real k / real ?n \<and> real k / real ?n \<le> 1"
    if "i < length ?F" for i
    using r [OF nth_mem [OF that]] that by simp
  have wall: "\<forall>c \<in> set (map (present_targets gene_symbols) ?F). 0 < c"
    using wpos by simp
  let ?rates = "map (\<lambda>item. fst (the (projr (?e item)))) ?F"
  let ?weights = "map (present_targets gene_symbols) ?F"
  have c1: "find_chip_rates ext expr gene_symbols tf_tg = Inr (?rates, ?weights)"
    unfolding loop w by (rule refl)
  have c2: "length ?rates = length ?F" "length ?weights = length ?F"
    by simp_all
  have c3: "\<forall>i < length ?F. ?e (?F ! i) = Inr (Some (?rates ! i, ?weights ! i))"
    using nth by blast
  have c4: "\<forall>i < length ?rates. \<exists>k. k \<le> ?n \<and> ?rates ! i = Fin (real k / real ?n)
      \<and> 0 \<le> real k / real ?n \<and> real k / real ?n \<le> 1"
    using rate c2(1) by presburger
  show ?thesis
    using c1 c2 c3 wall c4 by blast
qed

lemma example_env_total:
  "\<forall>x y. \<exists>p. mannwhitneyu example_env x y = Inr p"
  "\<forall>ps. \<exists>reject. multipletests example_env ps = Inr reject \<and> length reject = length ps"
  by (simp_all add: example_env_def)

lemma example_nrows: "0 < nrows example_expr"
  by (simp add: example_expr_def of_rows_def)

lemma example_chip_rates:
  "find_chip_rates example_env example_expr example_symbols (tf_tg_interactions example_env) =
     Inr ([Fin 0, Fin 1], [2, 1])"
proof -
  have t1: "tg_idxs example_symbols [''G2''] = Inr [2]"
    by (simp add: tg_idxs_def where_eq_def example_symbols_def upt_rec)
  have m: "tf_tg_interactions example_env = [(''TF1'', [''G1'', ''G2'']), (''G1'', [''G2''])]"
    by (simp add: example_env_def)
  have s: "nrows (standardize example_expr) = 2" "ncols (standardize example_expr) = 3"
    "nrows example_expr = 2" "ncols example_expr = 3"
    by (simp_all add: standardize_def example_expr_def of_rows_def)
  have e1: "chip_entry example_env example_expr example_symbols (''TF1'', [''G1'', ''G2'']) =
      Inr (Some (Fin 0, 2))"
    apply (simp add: chip_entry_def Let_def example_tg_idxs take_columns_def s)
    apply (simp add: example_symbols_def example_env_def row_def upt_rec)
    done
  have e2: "chip_entry example_env example_expr example_symbols (''G1'', [''G2'']) =
      Inr (Some (Fin 1, 1))"
    apply (simp add: chip_entry_def Let_def t1 take_columns_def s)
    apply (simp add: example_symbols_def example_env_def row_def upt_rec)
    done
  show ?thesis
    by (simp add: find_chip_rates_def m e1 e2)
qed

theorem find_chip_rates_shape_witness:
  "distinct example_symbols \<and> ncols example_expr = length example_symbols \<and>
   0 < nrows example_expr \<and>
   (\<forall>x y. \<exists>p. mannwhitneyu example_env x y = Inr p) \<and>
   (\<forall>ps. \<exists>reject. multipletests example_env ps = Inr reject \<and> length reject = length ps) \<and>
   (\<exists>rates weights.
     find_chip_rates example_env example_expr example_symbols
         (tf_tg_interactions example_env) = Inr (rates, weights)
     \<and> length rates =
         length (filter (eligible example_symbols) (tf_tg_interactions example_env))
     \<and> length weights =
         length (filter (eligible example_symbols) (tf_tg_interactions example_env))
     \<and> (\<forall>i < length (filter (eligible example_symbols) (tf_tg_interactions example_env)).
          chip_entry example_env example_expr example_symbols
            (filter (eligible example_symbols) (tf_tg_interactions example_env) ! i) =
            Inr (Some (rates ! i, weights ! i)))
     \<and> weights = map (present_targets example_symbols)
         (filter (eligible example_symbols) (tf_tg_interactions example_env))
     \<and> (\<forall>w \<in> set weights. 0 < w)
     \<and> (\<forall>i < length rates. \<exists>k. k \<le> nrows example_expr \<and>
           rates ! i = Fin (real k / real (nrows example_expr))
           \<and> 0 \<le> real k / real (nrows example_expr)
           \<and> real k / real (nrows example_expr) \<le> 1))"
  using find_chip_rates_shape [OF example_shape example_nrows example_env_total,
      of "tf_tg_interactions example_env"]
    example_shape example_nrows example_env_total
  by blast

lemma chip_entry_weight:
  assumes "chip_entry ext ex gs item = Inr a" "chip_entry ext ez gs item = Inr b"
  shows "map_option snd a = map_option snd b"
proof -
  obtain tf tgs where item: "item = (tf, tgs)" by (cases item)
  show ?thesis
  proof (cases "tg_idxs gs tgs")
    case (Inl e)
    then show ?thesis using assms by (simp add: chip_entry_def item)
  next
    case (Inr idxs)
    show ?thesis
    proof (cases "tf \<in> set gs \<and> 0 < length idxs")
      case False
      then show ?thesis using assms Inr by (auto simp: chip_entry_def item Let_def)
    next
      case True
      have "\<exists>r. a = Some (r, length idxs)"
        using assms(1) Inr True
        by (auto simp: chip_entry_def item Let_def split: sum.splits)
      moreover have "\<exists>r. b = Some (r, length idxs)"
        using assms(2) Inr True
        by (auto simp: chip_entry_def item Let_def split: sum.splits)
      ultimately show ?thesis by auto
    qed
  qed
qed

lemma chip_loop_weights:
  assumes "chip_loop ext ex gs items (A, W) = Inr (rx, wx)"
    "chip_loop ext ez gs items (B, W) = Inr (ry, wy)"
  shows "wx = wy"
  using assms
proof (induction items arbitrary: A B W)
  case Nil
  then show ?case by simp
next
  case (Cons item items)
  from Cons.prems obtain a b where
    a: "chip_entry ext ex gs item = Inr a" and b: "chip_entry ext ez gs item = Inr b"
    by (auto split: sum.splits)
  note w = chip_entry_weight [OF a b]
  show ?case
  proof (cases a)
    case None
    then have "b = None" using w by simp
    then show ?thesis using Cons.prems Cons.IH [of A W B] a b None by simp
  next
    case (Some p)
    obtain r1 w1 where p: "p = (r1, w1)" by (cases p)
    obtain r2 where b': "b = Some (r2, w1)" using w Some p by (cases b) auto
    show ?thesis
      using Cons.prems Cons.IH [of "A @ [r1]" "W @ [w1]" "B @ [r2]"] a b Some p b' by simp
  qed
qed

text \<open>
  Claim C8. \<^verbatim>\<open>omega_coefficient\<close> asserts that the two weight arrays are equal: when
  the comparison is false the result is \<^verbatim>\<open>AssertionError\<close>. The weights that
  \<^verbatim>\<open>find_chip_rates\<close> returns depend on the gene symbols and the regulatory map only,
  not on the expression matrix, so whenever both calls return, the two arrays are the
  same, the assertion holds, and the result is the weighted correlation of the chip
  rates: with one list of gene symbols and one map the assertion cannot fail.
\<close>

theorem omega_weights_assertion:
  "(np_eq_all weights_x weights_y = Inr False \<longrightarrow>
      omega_from_rates rates_x weights_x rates_y weights_y = Inl AssertionError) \<and>
   (find_chip_rates ext expr_x gene_symbols (tf_tg_interactions ext) = Inr (rx, wx) \<and>
    find_chip_rates ext expr_z gene_symbols (tf_tg_interactions ext) = Inr (ry, wy) \<longrightarrow>
      wx = wy \<and> np_eq_all wx wy = Inr True \<and>
      omega_coefficient ext expr_x expr_z gene_symbols =
        omega_stat rx ry (map (\<lambda>w. Fin (real w)) wx))"
proof (intro conjI impI)
  assume "np_eq_all weights_x weights_y = Inr False"
  then show "omega_from_rates rates_x weights_x rates_y weights_y = Inl AssertionError"
    by (simp add: omega_from_rates_def)
next
  assume h: "find_chip_rates ext expr_x gene_symbols (tf_tg_interactions ext) = Inr (rx, wx) \<and>
    find_chip_rates ext expr_z gene_symbols (tf_tg_interactions ext) = Inr (ry, wy)"
  then show eq: "wx = wy"
    using chip_loop_weights [of ext expr_x gene_symbols "tf_tg_interactions ext" "[]" "[]" rx wx
        expr_z "[]" ry wy]
    by (simp add: find_chip_rates_def)
  then show t: "np_eq_all wx wy = Inr True"
    by (simp add: np_eq_all_def)
  show "omega_coefficient ext expr_x expr_z gene_symbols =
        omega_stat rx ry (map (\<lambda>w. Fin (real w)) wx)"
    using h t by (simp add: omega_coefficient_def omega_from_rates_def Let_def)
qed

theorem omega_weights_assertion_witness:
  "np_eq_all [2, 1] [2, 3] = Inr False \<and>
   omega_from_rates [Fin 0, Fin 1] [2, 1] [Fin 0, Fin 1] [2, 3] = Inl AssertionError \<and>
   find_chip_rates example_env example_expr example_symbols (tf_tg_interactions example_env) =
     Inr ([Fin 0, Fin 1], [2, 1]) \<and>
   np_eq_all [2, 1] [2, 1] = Inr True \<and>
   omega_coefficient example_env example_expr example_expr example_symbols =
     omega_stat [Fin 0, Fin 1] [Fin 0, Fin 1] (map (\<lambda>w. Fin (real w)) [2, 1])"
proof -
  have h1: "np_eq_all [2, 1] [2, 3] = Inr False"
    by (simp add: np_eq_all_def)
  note t = omega_weights_assertion [where weights_x = "[2, 1]" and weights_y = "[2, 3]"
      and rates_x = "[Fin 0, Fin 1]" and rates_y = "[Fin 0, Fin 1]"
      and ext = example_env and expr_x = example_expr and expr_z = example_expr
      and gene_symbols = example_symbols and rx = "[Fin 0, Fin 1]" and wx = "[2, 1]"
      and ry = "[Fin 0, Fin 1]" and wy = "[2, 1]"]
  show ?thesis
    using t h1 example_chip_rates by blast
qed

section \<open>Properties of the correlations\<close>

lemma fin_list: "list_all is_fin xs \<Longrightarrow> xs = map Fin (map rval xs)"
proof (induction xs)
  case Nil
  then show ?case by simp
next
  case (Cons x xs)
  then show ?case by (cases x) simp_all
qed

lemma fsum_Fin: "fsum (map Fin rs) = Fin (sum_list rs)"
  by (induction rs) simp_all

lemma np_mean_Fin: "rs \<noteq> [] \<Longrightarrow> np_mean (map Fin rs) = Fin (rmean rs)"
  by (simp add: np_mean_def fsum_Fin rmean_def)

lemma sum_list_nonneg_real: "(\<forall>x \<in> set xs. 0 \<le> f x) \<Longrightarrow> 0 \<le> (\<Sum>x\<leftarrow>xs. (f x :: real))"
  by (induction xs) simp_all

lemma member_le_sum_list_real:
  "(\<forall>y \<in> set xs. 0 \<le> f y) \<Longrightarrow> x \<in> set xs \<Longrightarrow> (f x :: real) \<le> (\<Sum>y\<leftarrow>xs. f y)"
proof (induction xs)
  case Nil
  then show ?case by simp
next
  case (Cons a xs)
  have nn: "0 \<le> (\<Sum>y\<leftarrow>xs. f y)"
    using Cons.prems(1) by (intro sum_list_nonneg_real) simp
  show ?case
  proof (cases "x = a")
    case True
    then show ?thesis using nn by simp
  next
    case False
    then have "f x \<le> (\<Sum>y\<leftarrow>xs. f y)" using Cons by simp
    moreover have "0 \<le> f a" using Cons.prems(1) by simp
    ultimately show ?thesis by simp
  qed
qed

lemma rvar_nonneg: "0 \<le> rvar rs"
  unfolding rvar_def rmean_def
  by (intro divide_nonneg_nonneg sum_list_nonneg_real) simp_all

lemma rvar_sum: "rs \<noteq> [] \<Longrightarrow>
    (\<Sum>r\<leftarrow>rs. (r - rmean rs) * (r - rmean rs)) = real (length rs) * rvar rs"
  by (simp add: rvar_def rmean_def [of "map _ _"])

lemma np_std_Fin: "rs \<noteq> [] \<Longrightarrow> np_std (map Fin rs) = Fin (sqrt (rvar rs))"
proof -
  assume ne: "rs \<noteq> []"
  have m: "map (\<lambda>x. fmul (fsub x (Fin (rmean rs))) (fsub x (Fin (rmean rs)))) (map Fin rs) =
      map Fin (map (\<lambda>r. (r - rmean rs) * (r - rmean rs)) rs)"
    by (simp add: fsub_def)
  have a: "np_mean (map Fin (map (\<lambda>r. (r - rmean rs) * (r - rmean rs)) rs)) = Fin (rvar rs)"
    unfolding rvar_def by (rule np_mean_Fin) (use ne in simp)
  have nn: "\<not> rvar rs < 0" using rvar_nonneg [of rs] by simp
  show ?thesis
    unfolding np_std_def Let_def np_mean_Fin [OF ne] m a
    using nn by simp
qed

lemma standardize1_Fin:
  assumes "0 < rvar rs"
  shows "standardize1 (map Fin rs) = map Fin (rstandardize rs)"
proof -
  have ne: "rs \<noteq> []" using assms by (auto simp: rvar_def rmean_def)
  have s: "sqrt (rvar rs) \<noteq> 0" using assms by simp
  show ?thesis
    unfolding standardize1_def np_mean_Fin [OF ne] np_std_Fin [OF ne] rstandardize_def
    using s by (simp add: fsub_def)
qed

lemma np_dot_Fin: "np_dot (map Fin xs) (map Fin ys) = Fin (rdot xs ys)"
proof (induction xs arbitrary: ys)
  case Nil
  then show ?case by (simp add: np_dot_def rdot_def)
next
  case (Cons x xs)
  then show ?case by (cases ys) (simp_all add: np_dot_def rdot_def)
qed

lemma pearson_cell_Fin:
  assumes "0 < rvar xs" "0 < rvar ys"
  shows "pearson_cell (map Fin xs) (map Fin ys) =
     Fin (rdot (rstandardize xs) (rstandardize ys) / real (length xs))"
proof -
  have ne: "xs \<noteq> []" using assms(1) by (auto simp: rvar_def rmean_def)
  show ?thesis
    using ne by (simp add: pearson_cell_def standardize1_Fin assms np_dot_Fin)
qed

lemma sum_list_divide_real: "(\<Sum>x\<leftarrow>xs. f x / (c::real)) = (\<Sum>x\<leftarrow>xs. f x) / c"
  by (induction xs) (simp_all add: add_divide_distrib)

lemma rdot_self: "rdot xs xs = (\<Sum>x\<leftarrow>xs. x * x)"
  by (induction xs) (simp_all add: rdot_def)

lemma rdot_commute: "rdot xs ys = rdot ys xs"
proof (induction xs arbitrary: ys)
  case Nil
  then show ?case by (simp add: rdot_def)
next
  case (Cons x xs)
  then show ?case by (cases ys) (simp_all add: rdot_def)
qed

lemma rstandardize_square_sum:
  assumes "0 < rvar rs"
  shows "rdot (rstandardize rs) (rstandardize rs) = real (length rs)"
proof -
  have ne: "rs \<noteq> []" using assms by (auto simp: rvar_def rmean_def)
  have sq: "sqrt (rvar rs) * sqrt (rvar rs) = rvar rs"
    using assms by simp
  have "(\<Sum>r\<leftarrow>rs. (r - rmean rs) / sqrt (rvar rs) * ((r - rmean rs) / sqrt (rvar rs))) =
      (\<Sum>r\<leftarrow>rs. (r - rmean rs) * (r - rmean rs) / rvar rs)"
    by (simp only: times_divide_times_eq sq)
  also have "\<dots> = (\<Sum>r\<leftarrow>rs. (r - rmean rs) * (r - rmean rs)) / rvar rs"
    by (rule sum_list_divide_real)
  also have "\<dots> = real (length rs)"
    using assms by (simp add: rvar_sum [OF ne])
  finally show ?thesis
    by (simp add: rdot_self rstandardize_def comp_def)
qed

lemma rvar_pos_nonconstant:
  assumes "\<not> is_constant rs"
  shows "0 < rvar rs"
proof -
  have ne: "rs \<noteq> []" using assms by (auto simp: is_constant_def)
  obtain r where r: "r \<in> set rs" "r \<noteq> rmean rs"
    using assms by (auto simp: is_constant_def)
  have "0 < (r - rmean rs) * (r - rmean rs)"
    using r(2) by (auto simp: zero_less_mult_iff)
  also have "\<dots> \<le> (\<Sum>y\<leftarrow>rs. (y - rmean rs) * (y - rmean rs))"
    using member_le_sum_list_real [of rs "\<lambda>y. (y - rmean rs) * (y - rmean rs)" r] r(1) by simp
  finally have "0 < real (length rs) * rvar rs"
    using rvar_sum [OF ne] by simp
  then show ?thesis
    using ne by (simp add: zero_less_mult_iff)
qed

lemma constant_map_Fin: "is_constant (map Fin rs) = is_constant rs"
  by (auto simp: is_constant_def)

lemma pearson_cell_self:
  assumes "list_all is_fin d" "\<not> is_constant d"
  shows "pearson_cell d d = Fin 1"
proof -
  define rs where "rs = map rval d"
  have d: "d = map Fin rs" using fin_list [OF assms(1)] by (simp add: rs_def)
  have v: "0 < rvar rs"
    using assms(2) rvar_pos_nonconstant [of rs] by (simp add: d constant_map_Fin)
  have ne: "rs \<noteq> []" using v by (auto simp: rvar_def rmean_def)
  show ?thesis
    unfolding d pearson_cell_Fin [OF v v] rstandardize_square_sum [OF v]
    using ne by simp
qed

text \<open>
  Claim C7. A linkage matrix whose condensed dendrogram distances are finite and not
  all equal has the cophenetic correlation 1 with itself: \<^verbatim>\<open>compare_cophenetic\<close>
  standardises the one distance vector twice, and the mean of the squares of a
  standardised vector is 1.
\<close>

theorem compare_cophenetic_self:
  assumes "dendrogram_distance l_matrix True = Inr (Condensed d)"
    "list_all is_fin d" "\<not> is_constant d"
  shows "compare_cophenetic l_matrix l_matrix = Inr (Fin 1)"
  using assms(1) pearson_cell_self [OF assms(2,3)]
  by (simp add: compare_cophenetic_def pearson_correlation1_def)

lemma column_standardize: "column (standardize a) j = standardize1 (column a j)"
  by (simp add: column_def standardize_def standardize1_def comp_def)

lemma pearson_correlation_cell:
  assumes "nrows x = nrows y"
  shows "\<exists>c. pearson_correlation x y = Inr c \<and> nrows c = ncols x \<and> ncols c = ncols y \<and>
    (\<forall>i j. cell c i j = pearson_cell (column x i) (column y j))"
  using assms
  by (simp add: pearson_correlation_def Let_def pearson_cell_def column_standardize)
     (simp add: column_def)

lemma rdot_upper:
  "length xs = length ys \<Longrightarrow> 2 * rdot xs ys \<le> rdot xs xs + rdot ys ys"
proof (induction xs ys rule: list_induct2)
  case Nil
  then show ?case by (simp add: rdot_def)
next
  case (Cons x xs y ys)
  have "0 \<le> (x - y) * (x - y)" by simp
  then have "2 * (x * y) \<le> x * x + y * y" by (simp add: algebra_simps)
  then show ?case using Cons.IH by (simp add: rdot_def algebra_simps)
qed

lemma rdot_lower:
  "length xs = length ys \<Longrightarrow> - (rdot xs xs + rdot ys ys) \<le> 2 * rdot xs ys"
proof (induction xs ys rule: list_induct2)
  case Nil
  then show ?case by (simp add: rdot_def)
next
  case (Cons x xs y ys)
  have "0 \<le> (x + y) * (x + y)" by simp
  then have "- (x * x + y * y) \<le> 2 * (x * y)" by (simp add: algebra_simps)
  then show ?case using Cons.IH by (simp add: rdot_def algebra_simps)
qed

lemma rvar_pos_std:
  assumes "np_std (map Fin rs) = Fin s" "0 < s"
  shows "0 < rvar rs"
proof (cases "rs = []")
  case True
  then show ?thesis using assms by (simp add: np_std_def np_mean_def)
next
  case False
  then have "sqrt (rvar rs) = s" using assms(1) by (simp add: np_std_Fin)
  then show ?thesis using assms(2) by (metis real_sqrt_gt_0_iff)
qed

lemma pearson_cell_bounds:
  assumes "0 < rvar xs" "0 < rvar ys" "length xs = length ys"
  shows "\<exists>r. pearson_cell (map Fin xs) (map Fin ys) = Fin r \<and> - 1 \<le> r \<and> r \<le> 1"
proof -
  let ?a = "rstandardize xs" and ?b = "rstandardize ys"
  let ?n = "real (length xs)"
  have ne: "xs \<noteq> []" using assms(1) by (auto simp: rvar_def rmean_def)
  then have n: "0 < ?n" by simp
  have len: "length ?a = length ?b" using assms(3) by (simp add: rstandardize_def)
  have sa: "rdot ?a ?a = ?n" using rstandardize_square_sum [OF assms(1)] .
  have sb: "rdot ?b ?b = ?n" using rstandardize_square_sum [OF assms(2)] assms(3) by simp
  have "2 * rdot ?a ?b \<le> 2 * ?n" using rdot_upper [OF len] sa sb by simp
  then have u: "rdot ?a ?b / ?n \<le> 1" using n by simp
  have "- (2 * ?n) \<le> 2 * rdot ?a ?b" using rdot_lower [OF len] sa sb by simp
  then have "- ?n \<le> rdot ?a ?b" by simp
  then have l: "- 1 \<le> rdot ?a ?b / ?n" using n by (simp add: pos_le_divide_eq)
  show ?thesis
    unfolding pearson_cell_Fin [OF assms(1,2)] using u l by simp
qed

lemma pearson_cell_commute:
  assumes "0 < rvar xs" "0 < rvar ys" "length xs = length ys"
  shows "pearson_cell (map Fin xs) (map Fin ys) = pearson_cell (map Fin ys) (map Fin xs)"
  unfolding pearson_cell_Fin [OF assms(1,2)] pearson_cell_Fin [OF assms(2,1)]
  using assms(3) rdot_commute [of "rstandardize xs" "rstandardize ys"] by simp

text \<open>
  Claim C6. For a matrix of finite values in which every column has a positive
  standard deviation, \<^verbatim>\<open>pearson_correlation(X, X)\<close> returns a square matrix with 1
  on the diagonal, equal cells at \<open>(i, j)\<close> and \<open>(j, i)\<close>, and every cell between
  -1 and 1.
\<close>

theorem pearson_correlation_self:
  assumes fin: "\<forall>i<nrows x. \<forall>j<ncols x. is_fin (cell x i j)"
    and var: "\<forall>j<ncols x. \<exists>s. 0 < s \<and> np_std (column x j) = Fin s"
  shows "\<exists>c. pearson_correlation x x = Inr c \<and> nrows c = ncols x \<and> ncols c = ncols x \<and>
     (\<forall>i<ncols x. cell c i i = Fin 1) \<and>
     (\<forall>i<ncols x. \<forall>j<ncols x. cell c i j = cell c j i \<and>
        (\<exists>r. cell c i j = Fin r \<and> - 1 \<le> r \<and> r \<le> 1))"
proof -
  obtain c where c: "pearson_correlation x x = Inr c" "nrows c = ncols x" "ncols c = ncols x"
    "\<And>i j. cell c i j = pearson_cell (column x i) (column x j)"
    using pearson_correlation_cell [of x x] by auto
  define col where "col j = map rval (column x j)" for j
  have colfin: "column x j = map Fin (col j)" if "j < ncols x" for j
    unfolding col_def using fin that
    by (intro fin_list) (simp add: column_def list_all_iff)
  have len: "length (col j) = nrows x" for j
    by (simp add: col_def column_def)
  have v: "0 < rvar (col j)" if "j < ncols x" for j
    using var that colfin [OF that] rvar_pos_std [of "col j"] by auto
  have diag: "cell c i i = Fin 1" if "i < ncols x" for i
  proof -
    have ne: "col i \<noteq> []" using v [OF that] by (auto simp: rvar_def rmean_def)
    show ?thesis
      unfolding c(4) colfin [OF that] pearson_cell_Fin [OF v [OF that] v [OF that]]
        rstandardize_square_sum [OF v [OF that]]
      using ne by simp
  qed
  have sym: "cell c i j = cell c j i" if "i < ncols x" "j < ncols x" for i j
    unfolding c(4) colfin [OF that(1)] colfin [OF that(2)]
    by (rule pearson_cell_commute [OF v [OF that(1)] v [OF that(2)]]) (simp add: len)
  have bnd: "\<exists>r. cell c i j = Fin r \<and> - 1 \<le> r \<and> r \<le> 1" if "i < ncols x" "j < ncols x" for i j
    unfolding c(4) colfin [OF that(1)] colfin [OF that(2)]
    by (rule pearson_cell_bounds [OF v [OF that(1)] v [OF that(2)]]) (simp add: len)
  show ?thesis
    using c(1,2,3) diag sym bnd by blast
qed

lemma example_dendrogram:
  "dendrogram_distance [(0, 1, Fin 0, 2), (2, 3, Fin 2, 3)] True =
     Inr (Condensed [Fin 0, Fin 2, Fin 2])"
  apply (simp add: dendrogram_distance_def set_cell_def)
  apply (simp add: upper_diag_list_rows upt_rec)
  done

lemma example_columns:
  "column example_expr 0 = [Fin 1, Fin (- 1)]"
  "column example_expr 1 = [Fin 1, Fin (- 1)]"
  "column example_expr 2 = [Fin (- 1), Fin 1]"
  by (simp_all add: column_def example_expr_def of_rows_def upt_rec)

lemma example_std:
  "np_std [Fin 1, Fin (- 1)] = Fin 1" "np_std [Fin (- 1), Fin 1] = Fin 1"
  by (simp_all add: np_std_def np_mean_def fsub_def)

lemma example_finite: "\<forall>i<nrows example_expr. \<forall>j<ncols example_expr. is_fin (cell example_expr i j)"
proof -
  have "is_fin (cell example_expr i j)" if "i < 2" "j < 3" for i j
  proof -
    have "i = 0 \<or> i = 1" "j = 0 \<or> j = 1 \<or> j = 2" using that by auto
    then show ?thesis by (auto simp: example_expr_def of_rows_def)
  qed
  then show ?thesis by (simp add: example_expr_def of_rows_def)
qed

lemma example_variance:
  "\<forall>j<ncols example_expr. \<exists>s. 0 < s \<and> np_std (column example_expr j) = Fin s"
proof -
  have "ncols example_expr = 3" by (simp add: example_expr_def of_rows_def)
  moreover have "\<exists>s. 0 < s \<and> np_std (column example_expr j) = Fin s" if "j < 3" for j
  proof -
    have "j = 0 \<or> j = 1 \<or> j = 2" using that by auto
    then show ?thesis using example_columns example_std by auto
  qed
  ultimately show ?thesis by simp
qed

theorem pearson_correlation_self_witness:
  "\<exists>c. pearson_correlation example_expr example_expr = Inr c \<and>
     nrows c = ncols example_expr \<and> ncols c = ncols example_expr \<and>
     (\<forall>i<ncols example_expr. cell c i i = Fin 1) \<and>
     (\<forall>i<ncols example_expr. \<forall>j<ncols example_expr. cell c i j = cell c j i \<and>
        (\<exists>r. cell c i j = Fin r \<and> - 1 \<le> r \<and> r \<le> 1))"
  using pearson_correlation_self [OF example_finite example_variance] .

theorem compare_cophenetic_self_witness:
  "dendrogram_distance [(0, 1, Fin 0, 2), (2, 3, Fin 2, 3)] True =
     Inr (Condensed [Fin 0, Fin 2, Fin 2]) \<and>
   list_all is_fin [Fin 0, Fin 2, Fin 2] \<and> \<not> is_constant [Fin 0, Fin 2, Fin 2] \<and>
   compare_cophenetic [(0, 1, Fin 0, 2), (2, 3, Fin 2, 3)] [(0, 1, Fin 0, 2), (2, 3, Fin 2, 3)] =
     Inr (Fin 1)"
proof -
  have h2: "list_all is_fin [Fin 0, Fin 2, Fin 2]" by simp
  have h3: "\<not> is_constant [Fin 0, Fin 2, Fin 2]" by (simp add: is_constant_def)
  from compare_cophenetic_self [OF example_dendrogram h2 h3]
  show ?thesis using example_dendrogram h2 h3 by simp
qed

section \<open>A data set compared with itself\<close>

lemma rdot_self_pos:
  assumes "\<exists>r \<in> set rs. r \<noteq> 0"
  shows "0 < rdot rs rs"
proof -
  obtain r where r: "r \<in> set rs" "r \<noteq> 0" using assms by blast
  have "0 < r * r" using r(2) by (auto simp: zero_less_mult_iff)
  also have "\<dots> \<le> (\<Sum>y\<leftarrow>rs. y * y)"
    using member_le_sum_list_real [of rs "\<lambda>y. y * y" r] r(1) by simp
  finally show ?thesis by (simp add: rdot_self)
qed

lemma np_norm_Fin: "np_norm (map Fin rs) = Fin (sqrt (rdot rs rs))"
proof -
  have "map (\<lambda>x. fmul x x) (map Fin rs) = map Fin (map (\<lambda>r. r * r) rs)" by simp
  moreover have "0 \<le> (\<Sum>r\<leftarrow>rs. r * r)" by (intro sum_list_nonneg_real) simp
  ultimately show ?thesis
    unfolding np_norm_def by (simp only: fsum_Fin rdot_self fsqrt.simps) simp
qed

lemma cosine_similarity_self:
  assumes "list_all is_fin v" "\<exists>c \<in> set v. c \<noteq> Fin 0"
  shows "cosine_similarity v v = Inr (Fin 1)"
proof -
  define rs where "rs = map rval v"
  have v: "v = map Fin rs" using fin_list [OF assms(1)] by (simp add: rs_def)
  have "\<exists>r \<in> set rs. r \<noteq> 0" using assms(2) unfolding v by auto
  then have pos: "0 < rdot rs rs" by (rule rdot_self_pos)
  then have sq: "sqrt (rdot rs rs) * sqrt (rdot rs rs) = rdot rs rs" by simp
  show ?thesis
    unfolding v cosine_similarity_def np_dot_Fin np_norm_Fin
    using pos by (simp add: sq)
qed

lemma psi_loop_self:
  assumes "\<forall>v \<in> set a. list_all is_fin v \<and> (\<exists>c \<in> set v. c \<noteq> Fin 0)"
  shows "psi_loop ''nb_genes'' (zip a a) (PyInt w, NpFloat (Fin (real_of_int w))) =
     Inr (PyInt (w + (\<Sum>v\<leftarrow>a. int (length v))),
          NpFloat (Fin (real_of_int (w + (\<Sum>v\<leftarrow>a. int (length v))))))"
  using assms
proof (induction a arbitrary: w)
  case Nil
  then show ?case by simp
next
  case (Cons v a)
  have c: "cosine_similarity v v = Inr (Fin 1)"
    using Cons.prems by (intro cosine_similarity_self) simp_all
  show ?case
    using Cons.IH [of "w + int (length v)"] Cons.prems
    by (simp add: c add.assoc)
qed

lemma psi_coefficient_self:
  assumes "a \<noteq> []" "\<forall>v \<in> set a. list_all is_fin v \<and> (\<exists>c \<in> set v. c \<noteq> Fin 0)"
  shows "psi_coefficient a a ''nb_genes'' = Inr (Fin 1)"
proof -
  obtain v rest where a: "a = v # rest" using assms(1) by (cases a) auto
  have c: "cosine_similarity v v = Inr (Fin 1)"
    using assms(2) a by (intro cosine_similarity_self) simp_all
  have ne: "v \<noteq> []" using assms(2) a by auto
  let ?W = "int (length v) + (\<Sum>u\<leftarrow>rest. int (length u))"
  have first: "psi_loop ''nb_genes'' (zip a a) (PyInt 0, PyInt 0) =
      psi_loop ''nb_genes'' (zip rest rest)
        (PyInt (int (length v)), NpFloat (Fin (real_of_int (int (length v)))))"
    by (simp add: a c)
  have loop: "psi_loop ''nb_genes'' (zip a a) (PyInt 0, PyInt 0) =
      Inr (PyInt ?W, NpFloat (Fin (real_of_int ?W)))"
    unfolding first using psi_loop_self [of rest "int (length v)"] assms(2) a by simp
  have "0 < ?W"
  proof -
    have "0 \<le> (\<Sum>u\<leftarrow>rest. int (length u))" by (intro sum_list_nonneg) auto
    moreover have "0 < int (length v)" using ne by simp
    ultimately show ?thesis by linarith
  qed
  then show ?thesis
    unfolding psi_coefficient_def loop by simp
qed

lemma phi_weight_pos:
  assumes "cx \<noteq> []"
  shows "\<exists>w. 0 < w \<and> phi_weight ''nb_genes'' cx = Inr (NpFloat (Fin w))"
proof -
  let ?d = "1 + 8 * real (length cx)"
  have d: "1 < ?d" using assms by simp
  then have "1 < sqrt ?d" by simp
  then have pos: "0 < (sqrt ?d - 1) / 2" by simp
  have nn: "\<not> ?d < 0" using d by simp
  have s: "0 \<le> sqrt ?d" using d by simp
  have "phi_weight ''nb_genes'' cx = Inr (NpFloat (Fin ((sqrt ?d - 1) / 2)))"
    using nn s by (simp add: phi_weight_def np_roots_def py_max_def Let_def max_def)
  then show ?thesis using pos by blast
qed

lemma phi_loop_self_started:
  assumes "\<forall>v \<in> set b. v \<noteq> [] \<longrightarrow> list_all is_fin v \<and> (\<exists>c \<in> set v. c \<noteq> Fin 0)" "0 < s"
  shows "\<exists>t. 0 < t \<and>
     phi_loop ''nb_genes'' (zip b b) (NpFloat (Fin s), NpFloat (Fin s)) =
       Inr (NpFloat (Fin t), NpFloat (Fin t))"
  using assms
proof (induction b arbitrary: s)
  case Nil
  then show ?case by simp
next
  case (Cons v b)
  show ?case
  proof (cases "v = []")
    case True
    then show ?thesis using Cons.IH [of s] Cons.prems by simp
  next
    case False
    obtain w where w: "0 < w" "phi_weight ''nb_genes'' v = Inr (NpFloat (Fin w))"
      using phi_weight_pos [OF False] by blast
    have c: "cosine_similarity v v = Inr (Fin 1)"
      using Cons.prems False by (intro cosine_similarity_self) simp_all
    have "0 < s + w" using w(1) Cons.prems(2) by simp
    from Cons.IH [OF _ this] Cons.prems(1)
    obtain t where "0 < t"
      "phi_loop ''nb_genes'' (zip b b) (NpFloat (Fin (s + w)), NpFloat (Fin (s + w))) =
         Inr (NpFloat (Fin t), NpFloat (Fin t))"
      by auto
    then show ?thesis using False w c by auto
  qed
qed

lemma phi_coefficient_self:
  assumes "\<exists>v \<in> set b. v \<noteq> []"
    "\<forall>v \<in> set b. v \<noteq> [] \<longrightarrow> list_all is_fin v \<and> (\<exists>c \<in> set v. c \<noteq> Fin 0)"
  shows "phi_coefficient b b ''nb_genes'' = Inr (Fin 1)"
proof -
  have "\<exists>t. 0 < t \<and> phi_loop ''nb_genes'' (zip b b) (PyInt 0, PyInt 0) =
      Inr (NpFloat (Fin t), NpFloat (Fin t))"
    using assms
  proof (induction b)
    case Nil
    then show ?case by simp
  next
    case (Cons v b)
    show ?case
    proof (cases "v = []")
      case True
      then show ?thesis using Cons by simp
    next
      case False
      obtain w where w: "0 < w" "phi_weight ''nb_genes'' v = Inr (NpFloat (Fin w))"
        using phi_weight_pos [OF False] by blast
      have c: "cosine_similarity v v = Inr (Fin 1)"
        using Cons.prems False by (intro cosine_similarity_self) simp_all
      from phi_loop_self_started [of b w] Cons.prems(2) w(1)
      obtain t where "0 < t"
        "phi_loop ''nb_genes'' (zip b b) (NpFloat (Fin w), NpFloat (Fin w)) =
           Inr (NpFloat (Fin t), NpFloat (Fin t))"
        by auto
      then show ?thesis using False w c by auto
    qed
  qed
  then obtain t where "0 < t" "phi_loop ''nb_genes'' (zip b b) (PyInt 0, PyInt 0) =
      Inr (NpFloat (Fin t), NpFloat (Fin t))"
    by blast
  then show ?thesis
    by (simp add: phi_coefficient_def)
qed

lemma rdot_weighted_nonneg:
  "length ws = length rs \<Longrightarrow> \<forall>w \<in> set ws. 0 < w \<Longrightarrow> \<forall>r \<in> set rs. 0 \<le> f r \<Longrightarrow>
     0 \<le> rdot ws (map f rs)"
proof (induction ws rs rule: list_induct2)
  case Nil
  then show ?case by (simp add: rdot_def)
next
  case (Cons w ws r rs)
  then have "0 \<le> rdot ws (map f rs)" by simp
  moreover have "0 \<le> w * f r" using Cons.prems by simp
  ultimately show ?case by (simp add: rdot_def)
qed

lemma rdot_weighted_pos:
  "length ws = length rs \<Longrightarrow> \<forall>w \<in> set ws. 0 < w \<Longrightarrow> \<forall>r \<in> set rs. 0 \<le> f r \<Longrightarrow>
     \<exists>r \<in> set rs. 0 < f r \<Longrightarrow> 0 < rdot ws (map f rs)"
proof (induction ws rs rule: list_induct2)
  case Nil
  then show ?case by simp
next
  case (Cons w ws r rs)
  have tl: "0 \<le> rdot ws (map f rs)"
    using Cons.hyps Cons.prems by (intro rdot_weighted_nonneg) simp_all
  have hd: "0 \<le> w * f r" using Cons.prems by simp
  show ?case
  proof (cases "0 < f r")
    case True
    then have "0 < w * f r" using Cons.prems by simp
    then show ?thesis using tl by (simp add: rdot_def)
  next
    case False
    then have "\<exists>r \<in> set rs. 0 < f r" using Cons.prems by auto
    then have "0 < rdot ws (map f rs)" using Cons by simp
    then show ?thesis using hd by (simp add: rdot_def)
  qed
qed

lemma rdot_covar:
  "length ws = length rs \<Longrightarrow>
     rdot (map (\<lambda>(w, x). w * (x - m)) (zip ws rs)) (map (\<lambda>v. v - m) rs) =
     rdot ws (map (\<lambda>r. (r - m) * (r - m)) rs)"
  by (induction ws rs rule: list_induct2) (simp_all add: rdot_def algebra_simps)

lemma weighted_Fin:
  "length ws = length rs \<Longrightarrow>
     map (\<lambda>(wi, xi). fmul wi (fsub xi (Fin m))) (zip (map Fin ws) (map Fin rs)) =
     map Fin (map (\<lambda>(w, x). w * (x - m)) (zip ws rs))"
  by (induction ws rs rule: list_induct2) (simp_all add: fsub_def)

lemma sum_list_pos_real:
  "xs \<noteq> [] \<Longrightarrow> \<forall>x \<in> set xs. 0 < (x::real) \<Longrightarrow> 0 < sum_list xs"
  by (induction xs) (auto intro: add_pos_nonneg sum_list_nonneg_real [of _ "\<lambda>x. x", simplified] less_imp_le)

lemma omega_stat_self:
  assumes len: "length ws = length rs" and wpos: "\<forall>w \<in> set ws. 0 < w"
    and nc: "\<not> is_constant rs"
  shows "omega_stat (map Fin rs) (map Fin rs) (map Fin ws) = Inr (Fin 1)"
proof -
  have ne: "rs \<noteq> []" "ws \<noteq> []" using nc len by (auto simp: is_constant_def)
  let ?W = "sum_list ws"
  have W: "0 < ?W" using sum_list_pos_real [OF ne(2) wpos] .
  define m where "m = rdot ws rs / ?W"
  let ?sq = "\<lambda>r. (r - m) * (r - m)"
  define V where "V = rdot ws (map ?sq rs) / ?W"
  have mean: "weighted_mean (map Fin rs) (map Fin ws) = Inr (Fin m)"
    using len W by (simp add: weighted_mean_def np_dot1_def np_dot_Fin fsum_Fin m_def)
  have sqmap: "map (\<lambda>v. fmul (fsub v (Fin m)) (fsub v (Fin m))) (map Fin rs) = map Fin (map ?sq rs)"
    by (simp add: fsub_def)
  have var: "weighted_var (map Fin rs) (map Fin ws) (Fin m) = Inr (Fin V)"
    unfolding weighted_var_def sqmap np_dot1_def np_dot_Fin fsum_Fin V_def
    using len W by simp
  have submap: "map (\<lambda>v. fsub v (Fin m)) (map Fin rs) = map Fin (map (\<lambda>v. v - m) rs)"
    by (simp add: fsub_def)
  have covar: "weighted_covar (map Fin rs) (map Fin rs) (map Fin ws) (Fin m) (Fin m) = Inr (Fin V)"
    unfolding weighted_covar_def weighted_Fin [OF len] submap np_dot1_def np_dot_Fin fsum_Fin
      rdot_covar [OF len] V_def
    using len W by simp
  obtain r where r: "r \<in> set rs" "r \<noteq> m"
    using nc by (auto simp: is_constant_def)
  have "0 < ?sq r" using r(2) by (auto simp: zero_less_mult_iff)
  then have "0 < rdot ws (map ?sq rs)"
    using r(1) by (intro rdot_weighted_pos [OF len wpos]) auto
  then have V: "0 < V" using W by (simp add: V_def)
  then have "sqrt (V * V) = V" by simp
  then show ?thesis
    using V by (simp add: omega_stat_def mean var covar)
qed

lemma set_upper_diag_list:
  assumes "v \<in> set (upper_diag_list c)"
  shows "\<exists>i j. i < nrows c \<and> j < ncols c \<and> i < j \<and> v = cell c i j"
proof -
  from assms obtain i where i: "i < nrows c"
    "v \<in> set (filter (\<lambda>v. v \<noteq> NaN) (map (\<lambda>j. if i < j then cell c i j else NaN) [0..<ncols c]))"
    unfolding upper_diag_list_rows by auto
  then obtain j where "j < ncols c" "v = (if i < j then cell c i j else NaN)" "v \<noteq> NaN"
    by auto
  then show ?thesis using i(1) by (cases "i < j") auto
qed

lemma and_then_simps [simp]:
  "and_then (Inr v) f = f v" "and_then (Inl e) f = Inl e"
  by (simp_all add: and_then_def)

lemma is_fin_one_minus: "is_fin v \<Longrightarrow> is_fin (fsub (Fin 1) v)"
  by (cases v) (simp_all add: fsub_def)

lemma column_real:
  assumes fin: "\<forall>i<nrows x. \<forall>j<ncols x. is_fin (cell x i j)"
    and var: "\<forall>j<ncols x. \<exists>s. 0 < s \<and> np_std (column x j) = Fin s"
    and j: "j < ncols x"
  shows "\<exists>rs. column x j = map Fin rs \<and> 0 < rvar rs \<and> length rs = nrows x"
proof -
  let ?rs = "map rval (column x j)"
  have c: "column x j = map Fin ?rs"
    using fin j by (intro fin_list) (simp add: column_def list_all_iff)
  obtain s where "0 < s" "np_std (column x j) = Fin s" using var j by blast
  then have "0 < rvar ?rs" using rvar_pos_std [of ?rs s] c by simp
  moreover have "length ?rs = nrows x" by (simp add: column_def)
  ultimately show ?thesis using c by blast
qed

lemma pearson_cell_finite:
  assumes fin: "\<forall>i<nrows x. \<forall>j<ncols x. is_fin (cell x i j)"
    and var: "\<forall>j<ncols x. \<exists>s. 0 < s \<and> np_std (column x j) = Fin s"
    and "i < ncols x" "j < ncols x"
  shows "is_fin (pearson_cell (column x i) (column x j))"
proof -
  obtain a where a: "column x i = map Fin a" "0 < rvar a" "length a = nrows x"
    using column_real [OF fin var assms(3)] by blast
  obtain b where b: "column x j = map Fin b" "0 < rvar b" "length b = nrows x"
    using column_real [OF fin var assms(4)] by blast
  show ?thesis
    using pearson_cell_bounds [OF a(2) b(2)] a b by auto
qed

lemma nrows_pos:
  assumes var: "\<forall>j<ncols x. \<exists>s. 0 < s \<and> np_std (column x j) = Fin s" and "0 < ncols x"
  shows "0 < nrows x"
proof (rule ccontr)
  assume "\<not> 0 < nrows x"
  then have "column x 0 = []" by (simp add: column_def)
  then have "np_std (column x 0) = NaN" by (simp add: np_std_def np_mean_def)
  then show False using var assms(2) by auto
qed

lemma column_take:
  "column (NdArray2 (nrows a) k (\<lambda>i j. cell a i (idxs ! j))) j = column a (idxs ! j)"
  by (simp add: column_def)

lemma tf_entry_finite:
  assumes fin: "\<forall>i<nrows x. \<forall>j<ncols x. is_fin (cell x i j)"
    and var: "\<forall>j<ncols x. \<exists>s. 0 < s \<and> np_std (column x j) = Fin s"
    and e: "tf_entry x gs item = Inr (Some (v, u))"
  shows "list_all is_fin v \<and> list_all is_fin u"
proof -
  obtain tf tgs where item: "item = (tf, tgs)" by (cases item)
  from e obtain idxs where idxs: "tg_idxs gs tgs = Inr idxs"
    unfolding tf_entry_def item by (auto split: sum.splits)
  let ?k = "hd (where_eq gs tf)"
  let ?tgs = "NdArray2 (nrows x) (length idxs) (\<lambda>i j. cell x i (idxs ! j))"
  let ?tf = "NdArray2 (nrows x) (length [?k]) (\<lambda>i j. cell x i ([?k] ! j))"
  from e idxs have b1: "\<forall>k \<in> set idxs. k < ncols x" and b2: "?k < ncols x"
    unfolding tf_entry_def item
    by (auto simp: take_columns_def split: sum.splits if_splits)
  from e idxs b1 b2 have take: "take_columns x idxs = Inr ?tgs" "take_columns x [?k] = Inr ?tf"
    by (simp_all add: take_columns_def)
  obtain c where c: "pearson_correlation ?tgs ?tgs = Inr c" "nrows c = length idxs"
    "ncols c = length idxs" "\<And>i j. cell c i j = pearson_cell (column ?tgs i) (column ?tgs j)"
    using pearson_correlation_cell [of ?tgs ?tgs] by auto
  obtain d where d: "pearson_correlation ?tf ?tgs = Inr d" "nrows d = 1"
    "ncols d = length idxs" "\<And>i j. cell d i j = pearson_cell (column ?tf i) (column ?tgs j)"
    using pearson_correlation_cell [of ?tf ?tgs] by auto
  have res: "v = ravel d" "u = upper_diag_list c"
    using e idxs take c(1) d(1)
    unfolding tf_entry_def item
    by (auto simp: correlations_list_def split: if_splits)
  have "is_fin w" if "w \<in> set u" for w
  proof -
    from that have "w \<in> set (upper_diag_list c)" by (simp add: res(2))
    from set_upper_diag_list [OF this]
    obtain i j where "i < length idxs" "j < length idxs" "w = cell c i j"
      by (auto simp: c(2,3))
    then show ?thesis
      using pearson_cell_finite [OF fin var, of "idxs ! i" "idxs ! j"] b1
      by (simp add: c(4) column_take)
  qed
  moreover have "is_fin w" if "w \<in> set v" for w
  proof -
    have "v = map (cell d 0) [0..<length idxs]"
      using res(1) d(2,3) by (simp add: ravel_def)
    with that obtain j where "j < length idxs" "w = cell d 0 j"
      by auto
    moreover have "column ?tf 0 = column x ?k" by (simp add: column_def)
    ultimately show ?thesis
      using pearson_cell_finite [OF fin var, of ?k "idxs ! j"] b1 b2
      by (simp add: d(4) column_take)
  qed
  ultimately show ?thesis by (simp add: list_all_iff)
qed

lemma tf_loop_pred:
  assumes "tf_loop x gs items (A, B) = Inr (a, b)"
    and "\<forall>v \<in> set A. P v" "\<forall>u \<in> set B. Q u"
    and step: "\<And>item v u. tf_entry x gs item = Inr (Some (v, u)) \<Longrightarrow> P v \<and> Q u"
  shows "(\<forall>v \<in> set a. P v) \<and> (\<forall>u \<in> set b. Q u)"
  using assms(1,2,3)
proof (induction items arbitrary: A B)
  case Nil
  then show ?case by simp
next
  case (Cons item items)
  show ?case
  proof (cases "tf_entry x gs item")
    case (Inl e)
    then show ?thesis using Cons.prems(1) by simp
  next
    case (Inr r)
    show ?thesis
    proof (cases r)
      case None
      then have "tf_loop x gs items (A, B) = Inr (a, b)"
        using Cons.prems(1) Inr by simp
      then show ?thesis using Cons.IH Cons.prems(2,3) by blast
    next
      case (Some p)
      obtain v u where p: "p = (v, u)" by (cases p)
      have e: "tf_entry x gs item = Inr (Some (v, u))" using Inr Some p by simp
      have l: "tf_loop x gs items (A @ [v], B @ [u]) = Inr (a, b)"
        using Cons.prems(1) e by simp
      have pa: "\<forall>v' \<in> set (A @ [v]). P v'" using Cons.prems(2) step [OF e] by simp
      have qb: "\<forall>u' \<in> set (B @ [u]). Q u'" using Cons.prems(3) step [OF e] by simp
      show ?thesis by (rule Cons.IH [OF l pa qb])
    qed
  qed
qed

lemma compute_tf_tg_corrs_finite:
  assumes fin: "\<forall>i<nrows x. \<forall>j<ncols x. is_fin (cell x i j)"
    and var: "\<forall>j<ncols x. \<exists>s. 0 < s \<and> np_std (column x j) = Fin s"
    and c: "compute_tf_tg_corrs x gs tf_tg False = Inr (Nested a, Nested b)"
  shows "(\<forall>v \<in> set a. list_all is_fin v) \<and> (\<forall>u \<in> set b. list_all is_fin u)"
proof -
  have "tf_loop x gs tf_tg ([], []) = Inr (a, b)"
    using c by (auto simp: compute_tf_tg_corrs_def split: sum.splits)
  then show ?thesis
    by (rule tf_loop_pred [where P = "list_all is_fin" and Q = "list_all is_fin"])
       (simp_all add: tf_entry_finite [OF fin var])
qed

lemma chip_entry_SomeD:
  assumes "chip_entry ext x gs item = Inr (Some (r, w))"
  shows "0 < w \<and> 0 < ncols x \<and> (\<exists>k. r = fdiv (Fin (real k)) (Fin (real (nrows x))))"
proof -
  obtain tf tgs where item: "item = (tf, tgs)" by (cases item)
  from assms obtain idxs where idxs: "tg_idxs gs tgs = Inr idxs"
    unfolding chip_entry_def item by (auto simp: Let_def split: sum.splits)
  from assms idxs have pos: "0 < length idxs" and w: "w = length idxs"
    and b: "\<forall>k \<in> set idxs. k < ncols (standardize x)"
    and r: "\<exists>k. r = fdiv (Fin (real k)) (Fin (real (nrows x)))"
    unfolding chip_entry_def item
    by (auto simp: Let_def take_columns_def simp del: fdiv.simps split: sum.splits if_splits)
  have "hd idxs \<in> set idxs" using pos by simp
  then have "0 < ncols x" using b by (auto simp: standardize_def)
  then show ?thesis using pos w r by simp
qed

lemma chip_loop_pred:
  assumes "chip_loop ext x gs items (A, W) = Inr (r, w)" "length A = length W"
    and "\<forall>v \<in> set A. P v" "\<forall>c \<in> set W. Q c"
    and step: "\<And>item v c. chip_entry ext x gs item = Inr (Some (v, c)) \<Longrightarrow> P v \<and> Q c"
  shows "length r = length w \<and> (\<forall>v \<in> set r. P v) \<and> (\<forall>c \<in> set w. Q c)"
  using assms(1,2,3,4)
proof (induction items arbitrary: A W)
  case Nil
  then show ?case by simp
next
  case (Cons item items)
  show ?case
  proof (cases "chip_entry ext x gs item")
    case (Inl e)
    then show ?thesis using Cons.prems(1) by simp
  next
    case (Inr res)
    show ?thesis
    proof (cases res)
      case None
      then have "chip_loop ext x gs items (A, W) = Inr (r, w)"
        using Cons.prems(1) Inr by simp
      then show ?thesis using Cons.IH Cons.prems(2,3,4) by blast
    next
      case (Some p)
      obtain v c where p: "p = (v, c)" by (cases p)
      have e: "chip_entry ext x gs item = Inr (Some (v, c))" using Inr Some p by simp
      have l: "chip_loop ext x gs items (A @ [v], W @ [c]) = Inr (r, w)"
        using Cons.prems(1) e by simp
      have len: "length (A @ [v]) = length (W @ [c])" using Cons.prems(2) by simp
      have pa: "\<forall>v' \<in> set (A @ [v]). P v'" using Cons.prems(3) step [OF e] by simp
      have qw: "\<forall>c' \<in> set (W @ [c]). Q c'" using Cons.prems(4) step [OF e] by simp
      show ?thesis by (rule Cons.IH [OF l len pa qw])
    qed
  qed
qed

lemma omega_coefficient_self:
  assumes var: "\<forall>j<ncols x. \<exists>s. 0 < s \<and> np_std (column x j) = Fin s"
    and chip: "find_chip_rates ext x gs (tf_tg_interactions ext) = Inr (rates, weights)"
    and nc: "\<not> is_constant rates"
  shows "omega_coefficient ext x x gs = Inr (Fin 1)"
proof -
  have "length rates = length weights \<and>
    (\<forall>v \<in> set rates. 0 < ncols x \<and> (\<exists>k. v = fdiv (Fin (real k)) (Fin (real (nrows x))))) \<and>
    (\<forall>c \<in> set weights. 0 < c)"
    by (rule chip_loop_pred [of ext x gs "tf_tg_interactions ext" "[]" "[]"])
       (use chip chip_entry_SomeD in \<open>simp_all add: find_chip_rates_def del: fdiv.simps\<close>)
  then have inv: "length rates = length weights" "\<forall>c \<in> set weights. 0 < c"
    "\<forall>v \<in> set rates. 0 < ncols x \<and> (\<exists>k. v = fdiv (Fin (real k)) (Fin (real (nrows x))))"
    by blast+
  have ne: "rates \<noteq> []" using nc by (auto simp: is_constant_def)
  then have "0 < ncols x" using inv(3) by (cases rates) auto
  then have n: "0 < nrows x" using nrows_pos [OF var] by simp
  have "list_all is_fin rates"
    using inv(3) n by (auto simp: list_all_iff)
  then have r: "rates = map Fin (map rval rates)" by (rule fin_list)
  have nc': "\<not> is_constant (map rval rates)"
    using nc r constant_map_Fin [of "map rval rates"] by simp
  have w: "map (\<lambda>w. Fin (real w)) weights = map Fin (map real weights)" by simp
  have "omega_stat rates rates (map (\<lambda>w. Fin (real w)) weights) = Inr (Fin 1)"
    unfolding w
    using omega_stat_self [of "map real weights" "map rval rates"] inv(1,2) nc' r
    by simp
  then show ?thesis
    using chip by (simp add: omega_coefficient_def omega_from_rates_def np_eq_all_def Let_def)
qed

lemma gamma_coefficients_self:
  assumes fin: "\<forall>i<nrows x. \<forall>j<ncols x. is_fin (cell x i j)"
    and var: "\<forall>j<ncols x. \<exists>s. 0 < s \<and> np_std (column x j) = Fin s"
    and cx: "correlations_list x x pearson_correlation = Inr cx"
    and nc: "\<not> is_constant (map (\<lambda>v. fsub (Fin 1) v) cx)"
    and link: "linkage ext (map (\<lambda>v. fsub (Fin 1) v) cx) = Inr l_matrix"
    and coph: "cophenet ext l_matrix (map (\<lambda>v. fsub (Fin 1) v) cx) = Inr (Fin c)"
    and dend: "dendrogram_distance l_matrix True = Inr (Condensed t)"
      "list_all is_fin t" "\<not> is_constant t"
  shows "gamma_coefficients ext x x = Inr (Fin 1, Fin c, Fin c, Fin 1)"
proof -
  let ?d = "map (\<lambda>v. fsub (Fin 1) v) cx"
  obtain m where m: "pearson_correlation x x = Inr m" "nrows m = ncols x" "ncols m = ncols x"
    "\<And>i j. cell m i j = pearson_cell (column x i) (column x j)"
    using pearson_correlation_cell [of x x] by auto
  have cxm: "cx = upper_diag_list m" using cx m(1) by (simp add: correlations_list_def)
  have "is_fin v" if "v \<in> set cx" for v
  proof -
    from that have "v \<in> set (upper_diag_list m)" by (simp add: cxm)
    from set_upper_diag_list [OF this]
    obtain i j where "i < ncols x" "j < ncols x" "v = cell m i j"
      by (auto simp: m(2,3))
    then show ?thesis using pearson_cell_finite [OF fin var] by (simp add: m(4))
  qed
  then have "is_fin v" if "v \<in> set ?d" for v
    using that is_fin_one_minus by auto
  then have dfin: "list_all is_fin ?d" by (simp add: list_all_iff del: set_map)
  have g1: "pearson_correlation1 ?d ?d = Inr (Fin 1)"
    using pearson_cell_self [OF dfin nc] by (simp add: pearson_correlation1_def)
  have hc: "hierarchical_clustering ext x pearson_correlation = Inr l_matrix"
    using cx link by (simp add: hierarchical_clustering_def)
  have g4: "compare_cophenetic l_matrix l_matrix = Inr (Fin 1)"
    using dend(1) pearson_cell_self [OF dend(2,3)]
    by (simp add: compare_cophenetic_def pearson_correlation1_def)
  show ?thesis
    by (simp add: gamma_coefficients_def cx Let_def g1 hc coph g4)
qed

text \<open>
  Claim C1, amended. Let \<open>X\<close> be an expression matrix of finite values in which
  every gene column has a positive standard deviation, such that
  \<^item> the condensed distance vector of \<open>X\<close> is not constant, the external clustering
    returns a linkage matrix for it, the cophenetic coefficient of that linkage is
    finite, and the dendrogram distances of the linkage are finite and not constant;
  \<^item> \<^verbatim>\<open>compute_tf_tg_corrs\<close> returns at least one TF, at least one TF with a
    non-empty TG-TG list, and no TF-TG vector or non-empty TG-TG list is all zero;
  \<^item> \<^verbatim>\<open>find_chip_rates\<close> returns chip rates that are not all equal.
  Then \<^verbatim>\<open>compute_scores(X, X, symbols)\<close> returns \<open>[1, 1, 0, 1, 1, 1]\<close>.
\<close>

theorem compute_scores_self:
  assumes fin: "\<forall>i<nrows x. \<forall>j<ncols x. is_fin (cell x i j)"
    and var: "\<forall>j<ncols x. \<exists>s. 0 < s \<and> np_std (column x j) = Fin s"
    and cx: "correlations_list x x pearson_correlation = Inr cx"
    and nc: "\<not> is_constant (map (\<lambda>v. fsub (Fin 1) v) cx)"
    and link: "linkage ext (map (\<lambda>v. fsub (Fin 1) v) cx) = Inr l_matrix"
    and coph: "cophenet ext l_matrix (map (\<lambda>v. fsub (Fin 1) v) cx) = Inr (Fin c)"
    and dend: "dendrogram_distance l_matrix True = Inr (Condensed t)"
      "list_all is_fin t" "\<not> is_constant t"
    and corrs: "compute_tf_tg_corrs x gene_symbols (tf_tg_interactions ext) False =
      Inr (Nested a, Nested b)"
    and a: "a \<noteq> []" "\<forall>v \<in> set a. \<exists>c \<in> set v. c \<noteq> Fin 0"
    and b: "\<exists>u \<in> set b. u \<noteq> []" "\<forall>u \<in> set b. u \<noteq> [] \<longrightarrow> (\<exists>c \<in> set u. c \<noteq> Fin 0)"
    and chip: "find_chip_rates ext x gene_symbols (tf_tg_interactions ext) = Inr (rates, weights)"
      "\<not> is_constant rates"
  shows "compute_scores ext x x gene_symbols = Inr [Fin 1, Fin 1, Fin 0, Fin 1, Fin 1, Fin 1]"
proof -
  note g = gamma_coefficients_self [OF fin var cx nc link coph dend]
  note f = compute_tf_tg_corrs_finite [OF fin var corrs]
  have psi: "psi_coefficient a a ''nb_genes'' = Inr (Fin 1)"
    using a f by (intro psi_coefficient_self) auto
  have phi: "phi_coefficient b b ''nb_genes'' = Inr (Fin 1)"
    using b f by (intro phi_coefficient_self) auto
  note om = omega_coefficient_self [OF var chip]
  show ?thesis
    by (simp add: compute_scores_def g corrs psi phi om fsub_def)
qed

lemma example_cells:
  "pearson_cell [Fin 1, Fin (- 1)] [Fin 1, Fin (- 1)] = Fin 1"
  "pearson_cell [Fin 1, Fin (- 1)] [Fin (- 1), Fin 1] = Fin (- 1)"
  "pearson_cell [Fin (- 1), Fin 1] [Fin 1, Fin (- 1)] = Fin (- 1)"
  "pearson_cell [Fin (- 1), Fin 1] [Fin (- 1), Fin 1] = Fin 1"
  by (simp_all add: pearson_cell_def standardize1_def np_mean_def np_std_def fsub_def np_dot_def)

lemma example_correlations:
  "correlations_list example_expr example_expr pearson_correlation =
     Inr [Fin 1, Fin (- 1), Fin (- 1)]"
proof -
  obtain m where m: "pearson_correlation example_expr example_expr = Inr m"
    "nrows m = ncols example_expr" "ncols m = ncols example_expr"
    "\<And>i j. cell m i j = pearson_cell (column example_expr i) (column example_expr j)"
    using pearson_correlation_cell [of example_expr example_expr] by auto
  have n: "ncols example_expr = 3" by (simp add: example_expr_def of_rows_def)
  have c: "cell m 0 1 = Fin 1" "cell m 0 2 = Fin (- 1)" "cell m 1 2 = Fin (- 1)"
    by (simp_all add: m(4) example_columns example_cells del: One_nat_def)
  have c': "cell m 0 (Suc 0) = Fin 1" "cell m 0 (Suc (Suc 0)) = Fin (- 1)"
    "cell m (Suc 0) (Suc (Suc 0)) = Fin (- 1)"
    using c by (simp_all add: numeral_2_eq_2)
  have "upper_diag_list m = [Fin 1, Fin (- 1), Fin (- 1)]"
    by (simp add: upper_diag_list_rows m(2,3) n upt_rec c')
  then show ?thesis by (simp add: correlations_list_def m(1))
qed

lemma example_entry2:
  "tf_entry example_expr example_symbols (''G1'', [''G2'']) = Inr (Some ([Fin (- 1)], []))"
proof -
  have t: "tg_idxs example_symbols [''G2''] = Inr [2]"
    by (simp add: tg_idxs_def where_eq_def example_symbols_def upt_rec)
  show ?thesis
    apply (simp add: tf_entry_def t)
    apply (simp add: example_symbols_def example_expr_def of_rows_def where_eq_def
      take_columns_def upt_rec correlations_list_def pearson_correlation_def
      upper_diag_list_rows ravel_def Let_def)
    apply (simp add: upt_rec standardize_def column_def np_dot_def np_mean_def np_std_def
      fsub_def)
    done
qed

lemma example_env_fields:
  "linkage example_env y = Inr [(0, 1, Fin 0, 2), (2, 3, Fin 2, 3)]"
  "cophenet example_env z y = Inr (Fin (1 / 2))"
  "tf_tg_interactions example_env = [(''TF1'', [''G1'', ''G2'']), (''G1'', [''G2''])]"
  "linkage example_env_no_tf y = Inr [(0, 1, Fin 0, 2), (2, 3, Fin 2, 3)]"
  "cophenet example_env_no_tf z y = Inr (Fin (1 / 2))"
  "tf_tg_interactions example_env_no_tf = []"
  "linkage example_env_one_tf y = Inr [(0, 1, Fin 0, 2), (2, 3, Fin 2, 3)]"
  "cophenet example_env_one_tf z y = Inr (Fin (1 / 2))"
  "tf_tg_interactions example_env_one_tf = [(''TF1'', [''G1'', ''G2''])]"
  by (simp_all add: example_env_def example_env_no_tf_def example_env_one_tf_def)

lemma example_distances:
  "\<not> is_constant (map (\<lambda>v. fsub (Fin 1) v) [Fin 1, Fin (- 1), Fin (- 1)])"
  by (simp add: is_constant_def fsub_def)

lemma example_dendrogram_facts:
  "list_all is_fin [Fin 0, Fin 2, Fin 2]" "\<not> is_constant [Fin 0, Fin 2, Fin 2]"
  by (simp_all add: is_constant_def)

lemma example_gamma:
  assumes "\<And>y. linkage ext y = Inr [(0, 1, Fin 0, 2), (2, 3, Fin 2, 3)]"
    "\<And>z y. cophenet ext z y = Inr (Fin (1 / 2))"
  shows "gamma_coefficients ext example_expr example_expr =
     Inr (Fin 1, Fin (1 / 2), Fin (1 / 2), Fin 1)"
  by (rule gamma_coefficients_self [OF example_finite example_variance example_correlations
        example_distances assms(1) assms(2) example_dendrogram example_dendrogram_facts])

lemma example_corrs:
  "compute_tf_tg_corrs example_expr example_symbols (tf_tg_interactions example_env) False =
     Inr (Nested [[Fin 1, Fin (- 1)], [Fin (- 1)]], Nested [[Fin (- 1)], []])"
  by (simp add: compute_tf_tg_corrs_def example_env_fields example_entry example_entry2)

theorem compute_scores_self_witness:
  "compute_scores example_env example_expr example_expr example_symbols =
     Inr [Fin 1, Fin 1, Fin 0, Fin 1, Fin 1, Fin 1]"
proof -
  have a: "[[Fin 1, Fin (- 1)], [Fin (- 1)]] \<noteq> []"
    "\<forall>v \<in> set [[Fin 1, Fin (- 1)], [Fin (- 1)]]. \<exists>c \<in> set v. c \<noteq> Fin 0"
    by simp_all
  have b: "\<exists>u \<in> set [[Fin (- 1)], []]. u \<noteq> []"
    "\<forall>u \<in> set [[Fin (- 1)], []]. u \<noteq> [] \<longrightarrow> (\<exists>c \<in> set u. c \<noteq> Fin 0)"
    by simp_all
  have r: "\<not> is_constant [Fin 0, Fin 1]" by (simp add: is_constant_def)
  show ?thesis
    by (rule compute_scores_self [OF example_finite example_variance example_correlations
          example_distances example_env_fields(1) example_env_fields(2) example_dendrogram
          example_dendrogram_facts example_corrs a b example_chip_rates r])
qed

lemma example_chip_rates_one_tf:
  "find_chip_rates example_env_one_tf example_expr example_symbols
     (tf_tg_interactions example_env_one_tf) = Inr ([Fin 0], [2])"
proof -
  have s: "nrows (standardize example_expr) = 2" "ncols (standardize example_expr) = 3"
    "nrows example_expr = 2" "ncols example_expr = 3"
    by (simp_all add: standardize_def example_expr_def of_rows_def)
  have e1: "chip_entry example_env_one_tf example_expr example_symbols (''TF1'', [''G1'', ''G2'']) =
      Inr (Some (Fin 0, 2))"
    apply (simp add: chip_entry_def Let_def example_tg_idxs take_columns_def s)
    apply (simp add: example_symbols_def example_env_one_tf_def example_env_def row_def upt_rec)
    done
  show ?thesis
    by (simp add: find_chip_rates_def example_env_fields e1)
qed

text \<open>
  Claim C1, as stated: for every matrix with no zero-variance gene column and
  non-constant distance vectors, \<^verbatim>\<open>compute_scores(X, X, symbols)\<close> returns
  \<open>[1, 1, 0, 1, 1, 1]\<close>, up to NaN from zero-target edge cases. It fails on the
  example matrix: with a regulatory map in which no TF is eligible the call raises
  \<^verbatim>\<open>ZeroDivisionError\<close> and returns nothing; with the one TF of two targets the
  chip rates are constant, their weighted variance is zero and the last score is NaN.
\<close>

theorem compute_scores_self_counterexample:
  "compute_scores example_env_no_tf example_expr example_expr example_symbols =
     Inl ZeroDivisionError \<and>
   compute_scores example_env_one_tf example_expr example_expr example_symbols =
     Inr [Fin 1, Fin 1, Fin 0, Fin 1, Fin 1, NaN]"
proof
  have g: "gamma_coefficients example_env_no_tf example_expr example_expr =
      Inr (Fin 1, Fin (1 / 2), Fin (1 / 2), Fin 1)"
    by (rule example_gamma) (simp_all add: example_env_fields)
  show "compute_scores example_env_no_tf example_expr example_expr example_symbols =
     Inl ZeroDivisionError"
    by (simp add: compute_scores_def g example_env_fields compute_tf_tg_corrs_def
        psi_coefficient_def)
next
  have g: "gamma_coefficients example_env_one_tf example_expr example_expr =
      Inr (Fin 1, Fin (1 / 2), Fin (1 / 2), Fin 1)"
    by (rule example_gamma) (simp_all add: example_env_fields)
  have c: "compute_tf_tg_corrs example_expr example_symbols
      (tf_tg_interactions example_env_one_tf) False =
      Inr (Nested [[Fin 1, Fin (- 1)]], Nested [[Fin (- 1)]])"
    by (simp add: compute_tf_tg_corrs_def example_env_fields example_entry)
  have psi: "psi_coefficient [[Fin 1, Fin (- 1)]] [[Fin 1, Fin (- 1)]] ''nb_genes'' = Inr (Fin 1)"
    by (rule psi_coefficient_self) simp_all
  have phi: "phi_coefficient [[Fin (- 1)]] [[Fin (- 1)]] ''nb_genes'' = Inr (Fin 1)"
    by (rule phi_coefficient_self) simp_all
  have om: "omega_coefficient example_env_one_tf example_expr example_expr example_symbols =
      Inr NaN"
    by (simp add: omega_coefficient_def example_chip_rates_one_tf omega_from_rates_def
        np_eq_all_def omega_stat_def weighted_mean_def weighted_var_def weighted_covar_def
        np_dot1_def np_dot_def fsub_def)
  show "compute_scores example_env_one_tf example_expr example_expr example_symbols =
     Inr [Fin 1, Fin 1, Fin 0, Fin 1, Fin 1, NaN]"
    by (simp add: compute_scores_def g c psi phi om fsub_def)
qed

end
